theory Spec2Isabelle
  imports Main "HOL-Library.Word"
begin

section \<open>The model stream adapter (nova\_sonic\_service.py)\<close>

text \<open>
  \<^verbatim>\<open>NovaSonicOfficialClient\<close> drives one bidirectional stream to the remote speech
  model. The embedding keeps its fields and threads the object through every method.
  What the source leaves to its surroundings is made explicit:
  \<^item> identifiers from \<^verbatim>\<open>uuid.uuid4()\<close> are drawn from a counter (\<open>next_uuid\<close>), so
    that every draw is fresh;
  \<^item> the stream is its transport: for every \<open>n\<close>, whether the \<open>n\<close>-th operation asked of
    it from now on (a send, or the closing of its input side) is accepted. Every operation
    uses up one answer; a refused operation raises, and says nothing about later ones;
  \<^item> \<open>sent\<close> is the trace of the events the remote end accepted from this client,
    oldest first, with the audio payload shown before its base64 encoding;
  \<^item> \<open>logs\<close> is the trace of the module logger's \<^verbatim>\<open>warning\<close> and \<^verbatim>\<open>error\<close> calls
    (\<^verbatim>\<open>info\<close> and \<^verbatim>\<open>debug\<close> lines are left out).
\<close>

type_synonym byte = "8 word"
type_synonym bytes = "byte list"
type_synonym uuid = nat

text \<open>The answers of the transport to the operations to come, and what is left of them
  once the next answer is used.\<close>
type_synonym stream = "nat \<Rightarrow> bool"

definition later :: "stream \<Rightarrow> stream" where
  "later f = (\<lambda>n. f (Suc n))"

text \<open>The JSON events written to the stream, by their \<^verbatim>\<open>event\<close> key and the names they carry
  (prompt name first, content name second).\<close>
datatype event =
    SessionStart
  | PromptStart "uuid option"
  | TextContentStart "uuid option" "uuid option"
  | TextInput "uuid option" "uuid option"
  | AudioContentStart "uuid option" "uuid option"
  | AudioInput "uuid option" "uuid option" bytes
  | ContentEnd "uuid option" "uuid option"
  | PromptEnd "uuid option"
  | SessionEnd

text \<open>What the stream-reading task decodes from the model's output: the first key of the
  \<^verbatim>\<open>elif\<close> chain that the event has. \<open>StartOfContent\<close> carries the \<^verbatim>\<open>role\<close> entry, if any, and
  the \<^verbatim>\<open>additionalModelFields\<close> entry; \<open>AudioOutput\<close> carries the decoded payload, \<open>None\<close>
  when the \<^verbatim>\<open>content\<close> entry is missing or empty.\<close>
datatype model_fields = NoFields | BadFields | Fields "string option"

datatype model_event =
    StartOfContent "string option" model_fields
  | TextOutput string
  | AudioOutput "bytes option"
  | EndOfContent
  | CompletionEnd
  | Unrecognized

text \<open>The entries of \<^verbatim>\<open>event_queue\<close>, by their \<^verbatim>\<open>type\<close>.\<close>
datatype control = Barge_in | Content_end | Completion

text \<open>Exceptions. \<open>TransportError\<close> stands for whatever the SDK raises when a send or the
  closing of the input stream fails, \<open>ConnectError\<close> for a failure to create the client or to
  open the stream, \<open>NoStream\<close> for the \<^verbatim>\<open>AttributeError\<close> of \<^verbatim>\<open>self.stream.input_stream\<close>
  when \<^verbatim>\<open>self.stream\<close> is \<^verbatim>\<open>None\<close>.\<close>
datatype err =
    StreamNotInitialized
  | TransportError
  | NoStream
  | ConnectError
  | StartFailed
  | WrongMode
  | DecodeError
  | RedisError

definition err_text :: "err \<Rightarrow> string" where
  "err_text e = (case e of
       StreamNotInitialized \<Rightarrow> ''Stream not initialized''
     | TransportError \<Rightarrow> ''transport error''
     | NoStream \<Rightarrow> [CHR 0x27] @ ''NoneType'' @ [CHR 0x27] @ '' object has no attribute '' @
         [CHR 0x27] @ ''input_stream'' @ [CHR 0x27]
     | ConnectError \<Rightarrow> ''connect error''
     | StartFailed \<Rightarrow> ''Failed to start BIDIRECTIONAL session''
     | WrongMode \<Rightarrow> ''Must use bidirectional_stream mode''
     | DecodeError \<Rightarrow> ''Incorrect padding''
     | RedisError \<Rightarrow> ''redis error'')"

text \<open>Warning and error lines of the two module loggers.\<close>
datatype log =
    WarnContentAlreadyOpen
  | WarnRejectingChunk
  | WarnNoActivePrompt
  | WarnUnbalancedContent nat nat
  | WarnUnbalancedPrompts nat nat
  | ErrStartSession err
  | ErrAudioProcessing err
  | ErrEndingSession err
  | WarnInactivityTimeout int
  | ErrWatchdog err
  | ErrWrongMode
  | ErrNovaFailed string
  | ErrNovaSonic err
  | WarnNoToken
  | WarnValidationFailed
  | ErrAuthVerification
  | WarnNoAudioData
  | ErrMessageProcessing err

record client =
  stream :: "stream option"
  response_task :: bool
  is_active :: bool
  prompt_name :: "uuid option"
  content_name :: "uuid option"
  audio_content_name :: "uuid option"
  audio_queue :: "bytes list"
  text_queue :: "(string option \<times> string) list"
  event_queue :: "control list"
  role :: "string option"
  display_assistant_text :: bool
  session_id :: "uuid option"
  content_open :: bool
  prompt_starts :: nat
  prompt_ends :: nat
  content_starts :: nat
  content_ends :: nat
  next_uuid :: uuid
  sent :: "event list"
  logs :: "log list"

text \<open>\<^verbatim>\<open>__init__\<close>: no stream, inactive, empty queues, all counters zero.\<close>
definition init_client :: client where
  "init_client = \<lparr> stream = None, response_task = False, is_active = False,
     prompt_name = None, content_name = None, audio_content_name = None,
     audio_queue = [], text_queue = [], event_queue = [],
     role = None, display_assistant_text = False, session_id = None,
     content_open = False,
     prompt_starts = 0, prompt_ends = 0, content_starts = 0, content_ends = 0,
     next_uuid = 0, sent = [], logs = [] \<rparr>"

definition log_line :: "log \<Rightarrow> client \<Rightarrow> client" where
  "log_line l c = c\<lparr>logs := logs c @ [l]\<rparr>"

text \<open>A method that may raise returns the exception or its value, and the object as the
  method left it.\<close>
type_synonym 'a outcome = "(err + 'a) \<times> client"

text \<open>\<^verbatim>\<open>send_event\<close>: raises when there is no stream; otherwise hands the event to the
  transport (\<^verbatim>\<open>input_stream.send\<close>), which accepts it or raises.\<close>
definition send_event :: "event \<Rightarrow> client \<Rightarrow> unit outcome" where
  "send_event ev c =
     (case stream c of
        None \<Rightarrow> (Inl StreamNotInitialized, c)
      | Some f \<Rightarrow>
          if f 0 then (Inr (), c\<lparr>stream := Some (later f), sent := sent c @ [ev]\<rparr>)
          else (Inl TransportError, c\<lparr>stream := Some (later f)\<rparr>))"

text \<open>\<^verbatim>\<open>await self.stream.input_stream.close()\<close>: one more operation of the transport.\<close>
definition close_input_stream :: "client \<Rightarrow> unit outcome" where
  "close_input_stream c =
     (case stream c of
        None \<Rightarrow> (Inl NoStream, c)
      | Some f \<Rightarrow>
          if f 0 then (Inr (), c\<lparr>stream := Some (later f)\<rparr>)
          else (Inl TransportError, c\<lparr>stream := Some (later f)\<rparr>))"

text \<open>\<^verbatim>\<open>start_session\<close>, called without a configuration. \<open>conn\<close> is what creating the client
  and opening the stream yield: \<open>None\<close> when either raises, the fresh stream otherwise.
  Any exception is caught: the session is marked inactive and \<open>False\<close> returned.\<close>
definition start_failed :: "err \<Rightarrow> client \<Rightarrow> bool \<times> client" where
  "start_failed e c = (False, (log_line (ErrStartSession e) c)\<lparr>is_active := False\<rparr>)"

definition start_session :: "stream option \<Rightarrow> client \<Rightarrow> bool \<times> client" where
  "start_session conn c =
     (let c0 = c\<lparr> session_id := Some (next_uuid c),
                  prompt_name := Some (next_uuid c + 1),
                  content_name := Some (next_uuid c + 2),
                  audio_content_name := Some (next_uuid c + 3),
                  next_uuid := next_uuid c + 4 \<rparr>
      in case conn of
        None \<Rightarrow> start_failed ConnectError c0
      | Some st \<Rightarrow>
         (case send_event SessionStart (c0\<lparr>stream := Some st, is_active := True\<rparr>) of
            (Inl e, c1) \<Rightarrow> start_failed e c1
          | (Inr _, c1) \<Rightarrow>
         (case send_event (PromptStart (prompt_name c1)) c1 of
            (Inl e, c2) \<Rightarrow> start_failed e c2
          | (Inr _, c2) \<Rightarrow>
         (case send_event (TextContentStart (prompt_name c2) (content_name c2))
                 (c2\<lparr>prompt_starts := prompt_starts c2 + 1\<rparr>) of
            (Inl e, c3) \<Rightarrow> start_failed e c3
          | (Inr _, c3) \<Rightarrow>
         (case send_event (TextInput (prompt_name c3) (content_name c3)) c3 of
            (Inl e, c4) \<Rightarrow> start_failed e c4
          | (Inr _, c4) \<Rightarrow>
         (case send_event (ContentEnd (prompt_name c4) (content_name c4)) c4 of
            (Inl e, c5) \<Rightarrow> start_failed e c5
          | (Inr _, c5) \<Rightarrow> (True, c5\<lparr>response_task := True\<rparr>)))))))"

text \<open>\<^verbatim>\<open>end_audio_input\<close> (the spec's \<open>close_turn\<close>).\<close>
definition end_audio_input :: "client \<Rightarrow> unit outcome" where
  "end_audio_input c =
     (if prompt_name c = None \<or> audio_content_name c = None
      then (Inr (), log_line WarnNoActivePrompt c)
      else
        let closing_prompt = prompt_name c; closing_content = audio_content_name c in
        (case send_event (ContentEnd closing_prompt closing_content) c of
           (Inl e, c1) \<Rightarrow> (Inl e, c1)
         | (Inr _, c1) \<Rightarrow>
        (case send_event (PromptEnd closing_prompt) (c1\<lparr>content_ends := content_ends c1 + 1\<rparr>) of
           (Inl e, c2) \<Rightarrow> (Inl e, c2)
         | (Inr _, c2) \<Rightarrow>
            let c3 = c2\<lparr>prompt_ends := prompt_ends c2 + 1\<rparr>;
                c4 = (if content_starts c3 \<noteq> content_ends c3
                      then log_line (WarnUnbalancedContent (content_starts c3) (content_ends c3)) c3
                      else c3);
                c5 = (if prompt_starts c4 \<noteq> prompt_ends c4
                      then log_line (WarnUnbalancedPrompts (prompt_starts c4) (prompt_ends c4)) c4
                      else c4)
            in (Inr (), c5\<lparr>audio_content_name := None, content_open := False\<rparr>))))"

text \<open>\<^verbatim>\<open>start_audio_input\<close> (the spec's \<open>open_turn\<close>).\<close>
definition start_audio_input :: "client \<Rightarrow> unit outcome" where
  "start_audio_input c =
     (case (if content_open c then end_audio_input (log_line WarnContentAlreadyOpen c)
            else (Inr (), c)) of
        (Inl e, c1) \<Rightarrow> (Inl e, c1)
      | (Inr _, c1) \<Rightarrow>
         let c2 = c1\<lparr>audio_content_name := Some (next_uuid c1), next_uuid := next_uuid c1 + 1\<rparr> in
         (case send_event (AudioContentStart (prompt_name c2) (audio_content_name c2)) c2 of
            (Inl e, c3) \<Rightarrow> (Inl e, c3)
          | (Inr _, c3) \<Rightarrow>
              (Inr (), c3\<lparr>content_open := True, content_starts := content_starts c3 + 1\<rparr>)))"

text \<open>\<^verbatim>\<open>send_audio_chunk\<close> (the spec's \<open>send_audio\<close>).\<close>
definition send_audio_chunk :: "bytes \<Rightarrow> client \<Rightarrow> unit outcome" where
  "send_audio_chunk audio_bytes c =
     (if \<not> is_active c then (Inr (), c)
      else if \<not> content_open c \<or> audio_content_name c = None
      then (Inr (), log_line WarnRejectingChunk c)
      else send_event (AudioInput (prompt_name c) (audio_content_name c) audio_bytes) c)"

text \<open>\<^verbatim>\<open>end_session\<close>: the prompt end, the session end, the closing of the input stream,
  then the reading task is cancelled and \<open>is_active\<close> reset. An exception of any of the
  three operations is caught and logged, and \<open>is_active\<close> is then left as it was.\<close>
definition end_session :: "client \<Rightarrow> client" where
  "end_session c =
     (if \<not> is_active c then c
      else
        (case send_event (PromptEnd (prompt_name c)) c of
           (Inl e, c1) \<Rightarrow> log_line (ErrEndingSession e) c1
         | (Inr _, c1) \<Rightarrow>
        (case send_event SessionEnd c1 of
           (Inl e, c2) \<Rightarrow> log_line (ErrEndingSession e) c2
         | (Inr _, c2) \<Rightarrow>
        (case close_input_stream c2 of
           (Inl e, c3) \<Rightarrow> log_line (ErrEndingSession e) c3
         | (Inr _, c3) \<Rightarrow> c3\<lparr>response_task := False, is_active := False\<rparr>))))"


subsection \<open>The stream-reading task\<close>

text \<open>\<^verbatim>\<open>prefix in text\<close> at the start of a string (\<^verbatim>\<open>str.startswith\<close>) and anywhere in it
  (\<^verbatim>\<open>in\<close>).\<close>
fun starts_with :: "string \<Rightarrow> string \<Rightarrow> bool" where
  "starts_with [] t = True"
| "starts_with (p # ps) [] = False"
| "starts_with (p # ps) (x # xs) = (p = x \<and> starts_with ps xs)"

fun contains :: "string \<Rightarrow> string \<Rightarrow> bool" where
  "contains pat [] = (pat = [])"
| "contains pat (x # xs) = (starts_with pat (x # xs) \<or> contains pat xs)"

definition interruption_marker :: string where
  \<open>interruption_marker = ''{ "interrupted" : true }''\<close>

text \<open>The body of the loop of \<^verbatim>\<open>_process_responses\<close> for one decoded event.\<close>
definition process_response :: "model_event \<Rightarrow> client \<Rightarrow> client" where
  "process_response ev c =
     (case ev of
        StartOfContent r extra \<Rightarrow>
          (let c1 = c\<lparr>role := Some (case r of None \<Rightarrow> ''ASSISTANT'' | Some x \<Rightarrow> x)\<rparr>
           in case extra of
                Fields stage \<Rightarrow> c1\<lparr>display_assistant_text := (stage = Some ''SPECULATIVE'')\<rparr>
              | _ \<Rightarrow> c1)
      | TextOutput t \<Rightarrow>
          (let c1 = (if contains interruption_marker t
                     then c\<lparr>event_queue := event_queue c @ [Barge_in]\<rparr> else c)
           in c1\<lparr>text_queue := text_queue c1 @ [(role c1, t)]\<rparr>)
      | AudioOutput None \<Rightarrow> c
      | AudioOutput (Some audio_bytes) \<Rightarrow> c\<lparr>audio_queue := audio_queue c @ [audio_bytes]\<rparr>
      | EndOfContent \<Rightarrow> c\<lparr>event_queue := event_queue c @ [Content_end]\<rparr>
      | CompletionEnd \<Rightarrow> c\<lparr>event_queue := event_queue c @ [Completion]\<rparr>
      | Unrecognized \<Rightarrow> c)"

text \<open>The reader handling a run of events, in the order it receives them.\<close>
definition reader :: "model_event list \<Rightarrow> client \<Rightarrow> client" where
  "reader evs c = fold process_response evs c"

subsection \<open>One turn: \<^verbatim>\<open>process_audio_simple\<close>\<close>

text \<open>What the surroundings contribute to one call: \<open>connect\<close> is what opening a stream
  yields, should the call open one; \<open>early\<close> are the events the reader handles while the
  call waits for a new session to settle, before the queues are cleared; \<open>polls\<close> has one
  entry for each iteration of the collecting loop that the 15 seconds allow, holding the
  events the reader handled since the queues were last looked at.\<close>
record turn_env =
  connect :: "stream option"
  early :: "model_event list"
  polls :: "model_event list list"

text \<open>The dictionary returned; \<open>mode\<close> is the \<^verbatim>\<open>mode\<close> entry of \<^verbatim>\<open>metadata\<close>, if there is one.\<close>
record result =
  success :: bool
  error_msg :: "string option"
  audio :: bytes
  text_out :: string
  mode :: "string option"

definition no_response :: result where
  "no_response = \<lparr> success = False,
     error_msg = Some ''No response received from BIDIRECTIONAL stream'',
     audio = [], text_out = [], mode = None \<rparr>"

definition failed :: "err \<Rightarrow> result" where
  "failed e = \<lparr> success = False, error_msg = Some (err_text e),
     audio = [], text_out = [], mode = None \<rparr>"

text \<open>\<^verbatim>\<open>' '.join\<close>.\<close>
fun join_space :: "string list \<Rightarrow> string" where
  "join_space [] = []"
| "join_space [x] = x"
| "join_space (x # y # ys) = x @ '' '' @ join_space (y # ys)"

text \<open>\<^verbatim>\<open>data[i:i+n]\<close> for \<^verbatim>\<open>i in range(0, len(data), n)\<close>.\<close>
function slices :: "nat \<Rightarrow> 'a list \<Rightarrow> 'a list list" where
  "slices n xs = (if n = 0 \<or> xs = [] then [] else take n xs # slices n (drop n xs))"
  by pat_completeness auto
termination
  by (relation "measure (\<lambda>(n, xs). length xs)") auto

declare slices.simps [simp del]

fun send_chunks :: "bytes list \<Rightarrow> client \<Rightarrow> unit outcome" where
  "send_chunks [] c = (Inr (), c)"
| "send_chunks (chunk # chunks) c =
     (case send_audio_chunk chunk c of
        (Inl e, c1) \<Rightarrow> (Inl e, c1)
      | (Inr _, c1) \<Rightarrow> send_chunks chunks c1)"

text \<open>The first half of the call: start a session if none is active, clear the audio and
  text queues, open the turn, send the audio in slices of 4096 bytes, close the turn.\<close>
definition forward_turn :: "turn_env \<Rightarrow> bytes \<Rightarrow> client \<Rightarrow> unit outcome" where
  "forward_turn env audio_data c =
     (case (if \<not> is_active c
            then (case start_session (connect env) c of
                    (False, c') \<Rightarrow> (Inl StartFailed, c')
                  | (True, c') \<Rightarrow> (Inr (), reader (early env) c'))
            else (Inr (), c)) of
        (Inl e, c0) \<Rightarrow> (Inl e, c0)
      | (Inr _, c0) \<Rightarrow>
     (case start_audio_input (c0\<lparr>audio_queue := [], text_queue := []\<rparr>) of
        (Inl e, c1) \<Rightarrow> (Inl e, c1)
      | (Inr _, c1) \<Rightarrow>
     (case send_chunks (slices 4096 audio_data) c1 of
        (Inl e, c2) \<Rightarrow> (Inl e, c2)
      | (Inr _, c2) \<Rightarrow> end_audio_input c2)))"

text \<open>\<^verbatim>\<open>wait_for(event_queue.get(), 0.1)\<close>: the oldest control event, or nothing.\<close>
definition next_event :: "client \<Rightarrow> control option \<times> client" where
  "next_event c = (case event_queue c of
       [] \<Rightarrow> (None, c)
     | ev # q \<Rightarrow> (Some ev, c\<lparr>event_queue := q\<rparr>))"

text \<open>Emptying the audio queue and the text queue into the lists of the turn; only text
  queued under the role \<^verbatim>\<open>ASSISTANT\<close> is kept.\<close>
definition gather :: "bytes list \<Rightarrow> string list \<Rightarrow> client \<Rightarrow> bytes list \<times> string list \<times> client" where
  "gather audio_chunks text_parts c =
     (audio_chunks @ audio_queue c,
      text_parts @ map snd (filter (\<lambda>text_data. fst text_data = Some ''ASSISTANT'') (text_queue c)),
      c\<lparr>audio_queue := [], text_queue := []\<rparr>)"

text \<open>The collecting loop. It ends when the time is up (no entry left), on a completion
  event (before looking at the queues), or once both audio and text have been gathered.\<close>
fun collect :: "model_event list list \<Rightarrow> bytes list \<Rightarrow> string list \<Rightarrow> client
    \<Rightarrow> bytes list \<times> string list \<times> client" where
  "collect [] audio_chunks text_parts c = (audio_chunks, text_parts, c)"
| "collect (batch # rest) audio_chunks text_parts c =
     (case next_event (reader batch c) of
        (Some Completion, c1) \<Rightarrow> (audio_chunks, text_parts, c1)
      | (_, c1) \<Rightarrow>
         (case gather audio_chunks text_parts c1 of
            (audio_chunks', text_parts', c2) \<Rightarrow>
              if audio_chunks' \<noteq> [] \<and> text_parts' \<noteq> []
              then (audio_chunks', text_parts', c2)
              else collect rest audio_chunks' text_parts' c2))"

definition combine :: "bytes list \<Rightarrow> string list \<Rightarrow> result" where
  "combine audio_chunks text_parts =
     (let combined_audio = concat audio_chunks;
          combined_text = join_space text_parts
      in if combined_audio \<noteq> [] \<or> combined_text \<noteq> []
         then \<lparr> success = True, error_msg = None, audio = combined_audio,
                text_out = combined_text, mode = Some ''bidirectional_stream'' \<rparr>
         else no_response)"

definition process_audio_simple :: "turn_env \<Rightarrow> bytes \<Rightarrow> client \<Rightarrow> result \<times> client" where
  "process_audio_simple env audio_data c =
     (case forward_turn env audio_data c of
        (Inl e, c1) \<Rightarrow> (failed e, log_line (ErrAudioProcessing e) c1)
      | (Inr _, c1) \<Rightarrow>
         (case collect (polls env) [] [] c1 of
            (audio_chunks, text_parts, c2) \<Rightarrow> (combine audio_chunks text_parts, c2)))"


section \<open>The gateway (main.py)\<close>

text \<open>Clock readings (\<^verbatim>\<open>time.time()\<close>, \<^verbatim>\<open>datetime.utcnow()\<close>) are whole microseconds, the
  resolution of \<^verbatim>\<open>datetime\<close>.\<close>
type_synonym time = int

definition BUFFER_MAX_SIZE :: nat where
  "BUFFER_MAX_SIZE = 100 * 1024"

text \<open>\<^verbatim>\<open>WS_SILENCE_THRESHOLD\<close> is 4.0 seconds.\<close>
definition WS_SILENCE_THRESHOLD :: int where
  "WS_SILENCE_THRESHOLD = 4000000"


subsection \<open>\<^verbatim>\<open>AudioProcessor\<close>\<close>

text \<open>The field \<^verbatim>\<open>silence_timer\<close> is never assigned after \<^verbatim>\<open>__init__\<close> and is left out.\<close>
record audio_processor =
  audio_buffer :: bytes
  last_audio_time :: time
  is_processing :: bool
  has_audio :: bool

definition new_audio_processor :: "time \<Rightarrow> audio_processor" where
  "new_audio_processor now = \<lparr> audio_buffer = [], last_audio_time = now,
     is_processing = False, has_audio = False \<rparr>"

text \<open>\<^verbatim>\<open>add_audio\<close>. The slice \<^verbatim>\<open>buffer[-BUFFER_MAX_SIZE:]\<close> of a longer buffer is its last
  \<^verbatim>\<open>BUFFER_MAX_SIZE\<close> bytes. The method calls no logger and keeps no count.\<close>
definition add_audio :: "time \<Rightarrow> bytes \<Rightarrow> audio_processor \<Rightarrow> bool \<times> audio_processor" where
  "add_audio now audio_data p =
     (let p1 = (if audio_data \<noteq> []
                then p\<lparr> audio_buffer := audio_buffer p @ audio_data,
                        last_audio_time := now, has_audio := True \<rparr>
                else p);
          p2 = (if length (audio_buffer p1) > BUFFER_MAX_SIZE
                then p1\<lparr>audio_buffer :=
                          drop (length (audio_buffer p1) - BUFFER_MAX_SIZE) (audio_buffer p1)\<rparr>
                else p1)
      in (length (audio_buffer p2) > 0, p2))"

definition check_silence :: "time \<Rightarrow> audio_processor \<Rightarrow> bool" where
  "check_silence now p =
     (if \<not> has_audio p then False else now - last_audio_time p > WS_SILENCE_THRESHOLD)"

definition convert_to_pcm_16khz :: "bytes \<Rightarrow> bytes" where
  "convert_to_pcm_16khz audio_data = audio_data"

definition clear_buffer :: "audio_processor \<Rightarrow> bytes \<times> audio_processor" where
  "clear_buffer p = (audio_buffer p, p\<lparr>audio_buffer := []\<rparr>)"

subsection \<open>\<^verbatim>\<open>NovaSession\<close>\<close>

text \<open>\<open>watchdog_task\<close> says that a watchdog task exists and is not done; \<open>journal\<close> is the
  trace of the warning and error lines that the methods of this session write. The
  session identifier is the millisecond count of its name \<^verbatim>\<open>session_<ms>\<close>.\<close>
record nova_session =
  ns_session_id :: int
  audio_processor :: audio_processor
  nova_service :: client
  created_at :: time
  last_activity :: time
  ns_is_active :: bool
  watchdog_task :: bool
  is_listening :: bool
  journal :: "log list"

definition new_session :: "int \<Rightarrow> time \<Rightarrow> nova_session" where
  "new_session sid now = \<lparr> ns_session_id = sid,
     audio_processor = new_audio_processor now, nova_service = init_client,
     created_at = now, last_activity = now, ns_is_active = True,
     watchdog_task = False, is_listening = False, journal = [] \<rparr>"

definition session_log :: "log \<Rightarrow> nova_session \<Rightarrow> nova_session" where
  "session_log l s = s\<lparr>journal := journal s @ [l]\<rparr>"

definition start_listening :: "time \<Rightarrow> nova_session \<Rightarrow> nova_session" where
  "start_listening now s =
     (let s1 = s\<lparr>is_listening := True, last_activity := now\<rparr>
      in if \<not> watchdog_task s1 then s1\<lparr>watchdog_task := True\<rparr> else s1)"

definition stop_listening :: "nova_session \<Rightarrow> nova_session" where
  "stop_listening s =
     (let s1 = s\<lparr>is_listening := False\<rparr>
      in if watchdog_task s1 then s1\<lparr>watchdog_task := False\<rparr> else s1)"


text \<open>The dictionary that \<^verbatim>\<open>process_with_nova\<close> returns: audio and text on success, an
  error text otherwise.\<close>
datatype reply = Reply bytes string | Failure string

definition process_with_nova :: "turn_env \<Rightarrow> bytes \<Rightarrow> nova_session \<Rightarrow> reply \<times> nova_session" where
  "process_with_nova env audio_data s =
     (let s1 = stop_listening s;
          pcm_audio = convert_to_pcm_16khz audio_data
      in case process_audio_simple env pcm_audio (nova_service s1) of
        (result, c) \<Rightarrow>
          let s2 = s1\<lparr>nova_service := c\<rparr> in
          if mode result \<noteq> Some ''bidirectional_stream''
          then (Failure (err_text WrongMode), session_log (ErrNovaSonic WrongMode) (session_log ErrWrongMode s2))
          else if success result
          then (Reply (audio result) (text_out result), s2)
          else
            let e = (case error_msg result of None \<Rightarrow> ''Unknown error'' | Some m \<Rightarrow> m)
            in (Failure e, session_log (ErrNovaFailed e) s2))"

subsection \<open>Token verification\<close>

text \<open>The identity collaborator (\<^verbatim>\<open>cognito_auth\<close>) is a parameter: for a token it returns
  the user's identifier, rejects the token, or raises.\<close>
datatype verdict = Verified string | Rejected | Raised

datatype user_info = UserInfo string

definition test_user :: user_info where
  "test_user = UserInfo ''test_user''"

definition is_test_token :: "string \<Rightarrow> bool" where
  "is_test_token token = (token = ''mock-token-for-testing'' \<or> starts_with ''test-'' token)"

definition verify_auth_token :: "(string \<Rightarrow> verdict) \<Rightarrow> string option
    \<Rightarrow> user_info option \<times> log list" where
  "verify_auth_token validate_token token =
     (case token of
        None \<Rightarrow> (None, [WarnNoToken])
      | Some t \<Rightarrow>
          if t = [] then (None, [WarnNoToken])
          else (case validate_token t of
                  Verified uid \<Rightarrow> (Some (UserInfo uid), [])
                | Rejected \<Rightarrow>
                    if is_test_token t then (Some test_user, [WarnValidationFailed])
                    else (None, [WarnValidationFailed])
                | Raised \<Rightarrow>
                    if is_test_token t then (Some test_user, [ErrAuthVerification])
                    else (None, [ErrAuthVerification])))"

subsection \<open>The message loop of \<^verbatim>\<open>websocket_endpoint\<close>\<close>

text \<open>Client messages by \<^verbatim>\<open>type\<close>. \<open>AudioInputMsg\<close> carries the decoded \<^verbatim>\<open>audioData\<close>
  (\<open>None\<close> when decoding raises, the empty string when the entry is missing) and the
  truth value of \<^verbatim>\<open>endOfUtterance\<close>.\<close>
datatype in_msg =
    Ping
  | InitializeSession "string option"
  | AudioInputMsg "bytes option" bool
  | EndSessionMsg
  | OtherMsg

datatype out_msg =
    ConnectionEstablished
  | Pong
  | SessionInitialized int
  | AudioOutputMsg bytes
  | Transcript string
  | InferenceComplete
  | SessionEnded int
  | ErrorMsg string
  | Heartbeat

text \<open>The variables of one connection: \<open>active_sessions\<close> holds the keys of the registry,
  \<open>redis_pool\<close> is \<open>None\<close> without Redis and otherwise says whether its calls succeed,
  \<open>outbox\<close> is what was sent to the client, \<open>closed\<close> says that the loop was left.\<close>
record connection =
  nova_session :: "nova_session option"
  conn_session_id :: "int option"
  active_sessions :: "int set"
  redis_pool :: "bool option"
  outbox :: "out_msg list"
  endpoint_logs :: "log list"
  closed :: bool

text \<open>What the surroundings contribute to the handling of one message.\<close>
record msg_env =
  clock :: time
  validate_token :: "string \<Rightarrow> verdict"
  turn :: turn_env

definition send_json :: "out_msg \<Rightarrow> connection \<Rightarrow> connection" where
  "send_json m g = g\<lparr>outbox := outbox g @ [m]\<rparr>"

text \<open>The handler of the loop's \<^verbatim>\<open>except Exception\<close>.\<close>
definition message_error :: "err \<Rightarrow> connection \<Rightarrow> connection" where
  "message_error e g =
     send_json (ErrorMsg (err_text e)) (g\<lparr>endpoint_logs := endpoint_logs g @ [ErrMessageProcessing e]\<rparr>)"

definition handle_initialize_session :: "msg_env \<Rightarrow> string option \<Rightarrow> connection \<Rightarrow> connection" where
  "handle_initialize_session env auth_token g =
     (case verify_auth_token (validate_token env) auth_token of
        (auth_info, lines) \<Rightarrow>
          let g1 = g\<lparr>endpoint_logs := endpoint_logs g @ lines\<rparr> in
          (case auth_info of
             None \<Rightarrow> send_json (ErrorMsg ''Authentication failed'') g1
           | Some _ \<Rightarrow>
               let sid = clock env div 1000;
                   g2 = g1\<lparr> conn_session_id := Some sid,
                            nova_session := Some (new_session sid (clock env)),
                            active_sessions := insert sid (active_sessions g1) \<rparr>
               in if redis_pool g2 = Some False then message_error RedisError g2
                  else send_json (SessionInitialized sid) g2))"

definition handle_audio_input :: "msg_env \<Rightarrow> bytes option \<Rightarrow> bool \<Rightarrow> connection \<Rightarrow> connection" where
  "handle_audio_input env decoded end_of_utterance g =
     (case nova_session g of
        None \<Rightarrow> send_json (ErrorMsg ''Session not initialized'') g
      | Some s \<Rightarrow>
     (case decoded of
        None \<Rightarrow> message_error DecodeError g
      | Some audio_data \<Rightarrow>
          let s1 = (if audio_data \<noteq> []
                    then
                      let s' = s\<lparr> audio_processor :=
                                     snd (add_audio (clock env) audio_data (audio_processor s)),
                                   last_activity := clock env \<rparr>
                      in if \<not> is_listening s' then start_listening (clock env) s' else s'
                    else s)
          in
          if end_of_utterance
          then
            (case clear_buffer (audio_processor s1) of
               (accumulated_audio, p) \<Rightarrow>
                 let s2 = s1\<lparr>audio_processor := p\<rparr> in
                 if accumulated_audio \<noteq> []
                 then
                   (case process_with_nova (turn env) accumulated_audio s2 of
                      (Reply a t, s3) \<Rightarrow>
                        let g1 = g\<lparr>nova_session := Some s3\<rparr>;
                            g2 = (if a \<noteq> [] then send_json (AudioOutputMsg a) g1 else g1);
                            g3 = (if t \<noteq> [] then send_json (Transcript t) g2 else g2)
                        in send_json InferenceComplete g3
                    | (Failure e, s3) \<Rightarrow> send_json (ErrorMsg e) (g\<lparr>nova_session := Some s3\<rparr>))
                 else g\<lparr> nova_session := Some s2,
                         endpoint_logs := endpoint_logs g @ [WarnNoAudioData] \<rparr>)
          else g\<lparr>nova_session := Some s1\<rparr>))"

definition handle_end_session :: "connection \<Rightarrow> connection" where
  "handle_end_session g =
     (case conn_session_id g of
        None \<Rightarrow> g\<lparr>closed := True\<rparr>
      | Some sid \<Rightarrow>
          let g1 = g\<lparr>active_sessions := active_sessions g - {sid}\<rparr>
          in if redis_pool g1 = Some False then message_error RedisError g1
             else (send_json (SessionEnded sid) g1)\<lparr>closed := True\<rparr>)"

definition handle_message :: "msg_env \<Rightarrow> in_msg \<Rightarrow> connection \<Rightarrow> connection" where
  "handle_message env message g =
     (case message of
        Ping \<Rightarrow> send_json Pong g
      | InitializeSession auth_token \<Rightarrow> handle_initialize_session env auth_token g
      | AudioInputMsg decoded end_of_utterance \<Rightarrow> handle_audio_input env decoded end_of_utterance g
      | EndSessionMsg \<Rightarrow> handle_end_session g
      | OtherMsg \<Rightarrow> g)"



section \<open>Notions used to state the properties\<close>

text \<open>The transport of the client's stream accepts the next \<open>n\<close> operations.\<close>
fun accepted :: "nat \<Rightarrow> stream \<Rightarrow> bool" where
  "accepted 0 f = True"
| "accepted (Suc n) f = (f 0 \<and> accepted n (later f))"

definition accepts :: "nat \<Rightarrow> client \<Rightarrow> bool" where
  "accepts n c = (case stream c of None \<Rightarrow> False | Some f \<Rightarrow> accepted n f)"

text \<open>The transport that accepts every operation.\<close>
definition reliable :: stream where
  "reliable = (\<lambda>n. True)"

text \<open>The last \<open>n\<close> elements of a list (all of it when it is shorter).\<close>
definition keep_last :: "nat \<Rightarrow> 'a list \<Rightarrow> 'a list" where
  "keep_last n xs = drop (length xs - n) xs"





text \<open>The events of a session start and of one turn, for given names.\<close>
definition session_events :: "uuid option \<Rightarrow> uuid option \<Rightarrow> event list" where
  "session_events p ct =
     [SessionStart, PromptStart p, TextContentStart p ct, TextInput p ct, ContentEnd p ct]"

definition turn_events :: "uuid option \<Rightarrow> uuid option \<Rightarrow> bytes \<Rightarrow> event list" where
  "turn_events p a audio_data =
     [AudioContentStart p a] @ map (AudioInput p a) (slices 4096 audio_data) @
     [ContentEnd p a, PromptEnd p]"

text \<open>What a client is expected to send for one turn with the given audio: the turn's
  events, after those of a session start if none is active.\<close>
definition expected_events :: "client \<Rightarrow> bytes \<Rightarrow> event list" where
  "expected_events c d =
     (if is_active c then turn_events (prompt_name c) (Some (next_uuid c)) d
      else session_events (Some (next_uuid c + 1)) (Some (next_uuid c + 2)) @
           turn_events (Some (next_uuid c + 1)) (Some (next_uuid c + 4)) d)"

text \<open>A client between turns whose transport does not fail: no content is open; an active
  one has a stream that accepts every operation and a prompt name, an inactive one will be
  given such a stream when it starts its session.\<close>
definition ready :: "turn_env \<Rightarrow> client \<Rightarrow> bool" where
  "ready env c = (\<not> content_open c \<and>
     (if is_active c then stream c = Some reliable \<and> prompt_name c \<noteq> None
      else connect env = Some reliable))"


text \<open>The calls that reach a client: a turn (from \<^verbatim>\<open>process_with_nova\<close>), the watchdog's
  closing of the turn (made only on an active client), and the end of the session.\<close>
datatype call = Turn turn_env bytes | WatchdogClose | EndSession

fun step :: "call \<Rightarrow> client \<Rightarrow> client" where
  "step (Turn env d) c = snd (process_audio_simple env d c)"
| "step WatchdogClose c = (if is_active c then snd (end_audio_input c) else c)"
| "step EndSession c = end_session c"

text \<open>Two clients used as concrete inputs: an active one between turns, and an active
  one with a turn open, each on a transport that accepts two more operations and refuses
  every later one.\<close>
definition idle_client :: client where
  "idle_client = init_client\<lparr>is_active := True, stream := Some (\<lambda>n. n < 2), prompt_name := Some 1\<rparr>"

definition open_client :: client where
  "open_client = init_client\<lparr>is_active := True, stream := Some (\<lambda>n. n < 2), prompt_name := Some 1,
     audio_content_name := Some 4, content_open := True, content_starts := 1, next_uuid := 5\<rparr>"

text \<open>A sequence of \<^verbatim>\<open>add_audio\<close> calls, each with its clock reading and its data.\<close>
fun add_all :: "(time \<times> bytes) list \<Rightarrow> audio_processor \<Rightarrow> audio_processor" where
  "add_all [] p = p"
| "add_all ((now, d) # rest) p = add_all rest (snd (add_audio now d p))"

text \<open>Two processors used as concrete inputs: one whose buffer is full, one whose buffer
  is one byte short of full.\<close>
definition full_processor :: audio_processor where
  "full_processor = \<lparr> audio_buffer = replicate 102400 7, last_audio_time = 0,
     is_processing = False, has_audio = True \<rparr>"

definition nearly_full_processor :: audio_processor where
  "nearly_full_processor = \<lparr> audio_buffer = replicate 102399 7, last_audio_time = 0,
     is_processing = False, has_audio = True \<rparr>"

text \<open>The tokens for which a session is created: those the collaborator verifies, and
  the test tokens.\<close>
definition admitted :: "(string \<Rightarrow> verdict) \<Rightarrow> string option \<Rightarrow> bool" where
  "admitted validate tok =
     (case tok of
        None \<Rightarrow> False
      | Some t \<Rightarrow> t \<noteq> [] \<and> (case validate t of Verified uid \<Rightarrow> True | _ \<Rightarrow> is_test_token t))"

text \<open>Concrete inputs: a connection that has no session yet, and surroundings in which
  the collaborator rejects every token and the model stays silent.\<close>
definition fresh_connection :: connection where
  "fresh_connection = \<lparr> nova_session = None, conn_session_id = None, active_sessions = {},
     redis_pool = None, outbox = [ConnectionEstablished], endpoint_logs = [], closed = False \<rparr>"

definition silent_turn :: turn_env where
  "silent_turn = \<lparr> connect = Some reliable, early = [], polls = [] \<rparr>"

definition rejecting_env :: msg_env where
  "rejecting_env = \<lparr> clock = 5000000, validate_token = (\<lambda>t. Rejected), turn = silent_turn \<rparr>"



text \<open>The events that the session of a connection has sent to the model (none without a
  session).\<close>
definition sent_to_model :: "connection \<Rightarrow> event list" where
  "sent_to_model g = (case nova_session g of None \<Rightarrow> [] | Some s \<Rightarrow> sent (nova_service s))"

text \<open>A concrete input: a connection whose session was just created.\<close>
definition session_connection :: connection where
  "session_connection = fresh_connection\<lparr> nova_session := Some (new_session 5000 5000000),
     conn_session_id := Some 5000, active_sessions := {5000} \<rparr>"

text \<open>The audio chunks and text parts that the collecting loop of a call of
  \<^verbatim>\<open>process_audio_simple\<close> has accumulated when it ends; \<open>None\<close> when the call raised
  before the loop.\<close>
definition collected :: "turn_env \<Rightarrow> bytes \<Rightarrow> client \<Rightarrow> (bytes list \<times> string list) option" where
  "collected env d c =
     (case forward_turn env d c of
        (Inl e, c1) \<Rightarrow> None
      | (Inr u, c1) \<Rightarrow>
          (case collect (polls env) [] [] c1 of (ac, tp, c2) \<Rightarrow> Some (ac, tp)))"

text \<open>What the client is sent for a reply of \<^verbatim>\<open>process_with_nova\<close>.\<close>
fun reply_messages :: "reply \<Rightarrow> out_msg list" where
  "reply_messages (Reply a t) =
     (if a \<noteq> [] then [AudioOutputMsg a] else []) @ (if t \<noteq> [] then [Transcript t] else []) @
     [InferenceComplete]"
| "reply_messages (Failure e) = [ErrorMsg e]"

text \<open>Following the words of the claims about the transcript: the role under which text
  arrives is the one of the latest content start (\<^verbatim>\<open>ASSISTANT\<close> if it names none), and the
  assistant's fragments of a run of events are the texts that arrive under the role
  \<^verbatim>\<open>ASSISTANT\<close>, in order.\<close>
fun role_after :: "string option \<Rightarrow> model_event list \<Rightarrow> string option" where
  "role_after r [] = r"
| "role_after r (StartOfContent r' extra # evs) =
     role_after (Some (case r' of None \<Rightarrow> ''ASSISTANT'' | Some x \<Rightarrow> x)) evs"
| "role_after r (ev # evs) = role_after r evs"

fun assistant_fragments :: "string option \<Rightarrow> model_event list \<Rightarrow> string list" where
  "assistant_fragments r [] = []"
| "assistant_fragments r (StartOfContent r' extra # evs) =
     assistant_fragments (Some (case r' of None \<Rightarrow> ''ASSISTANT'' | Some x \<Rightarrow> x)) evs"
| "assistant_fragments r (TextOutput t # evs) =
     (if r = Some ''ASSISTANT'' then t # assistant_fragments r evs else assistant_fragments r evs)"
| "assistant_fragments r (ev # evs) = assistant_fragments r evs"

text \<open>Events other than a completion and an audio fragment.\<close>
definition text_only :: "model_event \<Rightarrow> bool" where
  "text_only ev = (case ev of CompletionEnd \<Rightarrow> False | AudioOutput (Some b) \<Rightarrow> False | _ \<Rightarrow> True)"

text \<open>Concrete inputs: a turn in which the model transcribes the user and then answers in
  two fragments, and a turn in which the assistant's only fragment is the interruption
  marker.\<close>
definition chat_turn :: turn_env where
  "chat_turn = \<lparr> connect = Some reliable, early = [],
     polls = [[StartOfContent (Some ''USER'') NoFields, TextOutput ''hello''],
              [StartOfContent (Some ''ASSISTANT'') NoFields, TextOutput ''hi'', TextOutput ''there'']] \<rparr>"

definition interrupted_turn :: turn_env where
  "interrupted_turn = \<lparr> connect = Some reliable, early = [],
     polls = [[StartOfContent (Some ''ASSISTANT'') NoFields, TextOutput interruption_marker]] \<rparr>"

text \<open>Concrete inputs: an active client between turns whose transport accepts every
  operation, and one whose transport refuses the third operation to come and no other.\<close>
definition reliable_client :: client where
  "reliable_client = init_client\<lparr>is_active := True, stream := Some reliable, prompt_name := Some 1\<rparr>"

definition unclosable_client :: client where
  "unclosable_client =
     init_client\<lparr>is_active := True, stream := Some (\<lambda>n. n \<noteq> 2), prompt_name := Some 1\<rparr>"

text \<open>The control events that the reader queues for a run of events, and the audio
  fragments of the run, in order.\<close>
fun controls :: "model_event list \<Rightarrow> control list" where
  "controls [] = []"
| "controls (TextOutput t # evs) =
     (if contains interruption_marker t then Barge_in # controls evs else controls evs)"
| "controls (EndOfContent # evs) = Content_end # controls evs"
| "controls (CompletionEnd # evs) = Completion # controls evs"
| "controls (ev # evs) = controls evs"

fun audio_fragments :: "model_event list \<Rightarrow> bytes list" where
  "audio_fragments [] = []"
| "audio_fragments (AudioOutput (Some b) # evs) = b # audio_fragments evs"
| "audio_fragments (ev # evs) = audio_fragments evs"

text \<open>The number of polls whose output the collecting loop gathers, given the control
  events pending, whether audio and whether text have been gathered so far, and the role.
  At each poll the loop takes the oldest pending control event; when that is a completion
  it ends without gathering the poll, otherwise it gathers the poll and ends once it holds
  both audio and text; it also ends when the time is up.\<close>
fun gathered_polls :: "control list \<Rightarrow> bool \<Rightarrow> bool \<Rightarrow> string option \<Rightarrow> model_event list list \<Rightarrow> nat" where
  "gathered_polls q a t r [] = 0"
| "gathered_polls q a t r (batch # rest) =
     (let q' = q @ controls batch;
          a' = (a \<or> audio_fragments batch \<noteq> []);
          t' = (t \<or> assistant_fragments r batch \<noteq> [])
      in if q' \<noteq> [] \<and> hd q' = Completion then 0
         else if a' \<and> t' then 1
         else Suc (gathered_polls (tl q') a' t' (role_after r batch) rest))"

text \<open>The role and the pending control events when the collecting loop of a call begins
  (a call that starts a session lets the reader handle the early events first), and the
  events of the polls that the loop of the call gathers.\<close>
definition role_at_start :: "turn_env \<Rightarrow> client \<Rightarrow> string option" where
  "role_at_start env c = (if is_active c then role c else role_after (role c) (early env))"

definition pending_at_start :: "turn_env \<Rightarrow> client \<Rightarrow> control list" where
  "pending_at_start env c =
     (if is_active c then event_queue c else event_queue c @ controls (early env))"

definition gathered_events :: "turn_env \<Rightarrow> client \<Rightarrow> model_event list" where
  "gathered_events env c =
     concat (take (gathered_polls (pending_at_start env c) False False (role_at_start env c)
                     (polls env)) (polls env))"

text \<open>Concrete inputs: a turn in which the assistant's text, its audio and the completion
  all arrive before the collecting loop first looks, and a turn in which a second
  fragment arrives one poll after the first fragment and the audio.\<close>
definition completed_turn :: turn_env where
  "completed_turn = \<lparr> connect = Some reliable, early = [],
     polls = [[StartOfContent (Some ''ASSISTANT'') NoFields, TextOutput ''hi'',
               AudioOutput (Some [1]), CompletionEnd]] \<rparr>"

definition spoken_turn :: turn_env where
  "spoken_turn = \<lparr> connect = Some reliable, early = [],
     polls = [[StartOfContent (Some ''ASSISTANT'') NoFields, TextOutput ''hi'',
               AudioOutput (Some [1])], [TextOutput ''there'']] \<rparr>"

text \<open>The text parts that the collecting loop of a call has accumulated when it ends (none
  when the call raised before the loop).\<close>
definition text_parts :: "turn_env \<Rightarrow> bytes \<Rightarrow> client \<Rightarrow> string list" where
  "text_parts env d c = (case collected env d c of None \<Rightarrow> [] | Some (ac, tp) \<Rightarrow> tp)"








section \<open>Sending events\<close>

lemma later_reliable [simp]: "later reliable = reliable"
  by (simp add: later_def reliable_def)

lemma reliable_0 [simp]: "reliable 0"
  by (simp add: reliable_def)

lemma send_event_unlimited:
  "stream c = Some reliable \<Longrightarrow> send_event ev c = (Inr (), c\<lparr>sent := sent c @ [ev]\<rparr>)"
proof -
  assume a: "stream c = Some reliable"
  have "c\<lparr>stream := Some reliable, sent := sent c @ [ev]\<rparr> = c\<lparr>sent := sent c @ [ev]\<rparr>"
    using a by simp
  with a show ?thesis by (simp add: send_event_def)
qed

text \<open>Case analysis of a send inside a chain: it either raises and leaves all but the
  stream as it was, or it appends the event and leaves a stream.\<close>
lemma send_eventE:
  assumes "(case send_event ev c of (Inl e, c1) \<Rightarrow> F e c1 | (Inr u, c1) \<Rightarrow> G c1) = res"
  obtains (raised) e s' where "F e (c\<lparr>stream := s'\<rparr>) = res"
    | (accepted) s' where "G (c\<lparr>stream := Some s', sent := sent c @ [ev]\<rparr>) = res"
        "stream c \<noteq> None"
proof (cases "stream c")
  case None
  have "c\<lparr>stream := None\<rparr> = c" using None by simp
  moreover from assms None have "F StreamNotInitialized c = res" by (simp add: send_event_def)
  ultimately have "F StreamNotInitialized (c\<lparr>stream := None\<rparr>) = res" by simp
  then show ?thesis by (rule raised)
next
  case (Some f)
  show ?thesis
  proof (cases "f 0")
    case True
    with assms Some have "G (c\<lparr>stream := Some (later f), sent := sent c @ [ev]\<rparr>) = res"
      by (simp add: send_event_def)
    with Some show ?thesis by (intro accepted) simp_all
  next
    case False
    with assms Some have "F TransportError (c\<lparr>stream := Some (later f)\<rparr>) = res"
      by (simp add: send_event_def)
    then show ?thesis by (rule raised)
  qed
qed

section \<open>Sending audio (\<^verbatim>\<open>send_audio_chunk\<close>)\<close>

lemma send_audio_chunk_sent:
  "sent (snd (send_audio_chunk b c)) \<noteq> sent c \<Longrightarrow>
      is_active c \<and> content_open c \<and>
      sent (snd (send_audio_chunk b c)) =
        sent c @ [AudioInput (prompt_name c) (audio_content_name c) b]"
  by (auto simp: send_audio_chunk_def log_line_def send_event_def
      split: option.splits if_splits)

lemma send_audio_chunk_accepted:
  "is_active c \<Longrightarrow> content_open c \<Longrightarrow> audio_content_name c \<noteq> None \<Longrightarrow> accepts 1 c \<Longrightarrow>
      fst (send_audio_chunk b c) = Inr () \<and>
      sent (snd (send_audio_chunk b c)) =
        sent c @ [AudioInput (prompt_name c) (audio_content_name c) b] \<and>
      logs (snd (send_audio_chunk b c)) = logs c"
  by (auto simp: send_audio_chunk_def send_event_def accepts_def
      split: option.splits)

lemma send_audio_chunk_inactive: "\<not> is_active c \<Longrightarrow> send_audio_chunk b c = (Inr (), c)"
  by (simp add: send_audio_chunk_def)

lemma send_audio_chunk_rejected:
  "is_active c \<Longrightarrow> \<not> content_open c \<or> audio_content_name c = None \<Longrightarrow>
   send_audio_chunk b c = (Inr (), c\<lparr>logs := logs c @ [WarnRejectingChunk]\<rparr>)"
  by (auto simp: send_audio_chunk_def log_line_def)

text \<open>
  Claim C6, amended. \<^verbatim>\<open>send_audio_chunk\<close> on an inactive client returns at once and
  changes nothing: nothing is sent and no warning is logged. On an active client with
  no content open (or no content name) it sends nothing and logs one warning. On an active
  client with content open, and a transport that accepts one more event, it sends exactly
  one audio-input event carrying the bytes and logs nothing. Whenever a call does add to
  the events sent, the client was active with content open, and what it added is that one
  audio-input event.
\<close>
theorem send_audio_chunk_guarded:
  "(\<not> is_active c \<longrightarrow> send_audio_chunk b c = (Inr (), c)) \<and>
   (is_active c \<and> (\<not> content_open c \<or> audio_content_name c = None) \<longrightarrow>
      send_audio_chunk b c = (Inr (), c\<lparr>logs := logs c @ [WarnRejectingChunk]\<rparr>)) \<and>
   (is_active c \<and> content_open c \<and> audio_content_name c \<noteq> None \<and> accepts 1 c \<longrightarrow>
      fst (send_audio_chunk b c) = Inr () \<and>
      sent (snd (send_audio_chunk b c)) =
        sent c @ [AudioInput (prompt_name c) (audio_content_name c) b] \<and>
      logs (snd (send_audio_chunk b c)) = logs c) \<and>
   (sent (snd (send_audio_chunk b c)) \<noteq> sent c \<longrightarrow>
      is_active c \<and> content_open c \<and>
      sent (snd (send_audio_chunk b c)) =
        sent c @ [AudioInput (prompt_name c) (audio_content_name c) b])"
  using send_audio_chunk_inactive[of c b] send_audio_chunk_rejected[of c b]
    send_audio_chunk_accepted[of c b] send_audio_chunk_sent[of b c]
  by blast

theorem send_audio_chunk_guarded_witness:
  "send_audio_chunk [1, 2] init_client = (Inr (), init_client) \<and>
   send_audio_chunk [1, 2] idle_client =
     (Inr (), idle_client\<lparr>logs := logs idle_client @ [WarnRejectingChunk]\<rparr>) \<and>
   sent (snd (send_audio_chunk [1, 2] open_client)) = [AudioInput (Some 1) (Some 4) [1, 2]]"
proof -
  have a: "\<not> is_active init_client" by (simp add: init_client_def)
  have b: "is_active idle_client \<and> (\<not> content_open idle_client \<or> audio_content_name idle_client = None)"
    by (simp add: idle_client_def init_client_def)
  have c: "is_active open_client \<and> content_open open_client \<and>
      audio_content_name open_client \<noteq> None \<and> accepts 1 open_client"
    by (simp add: open_client_def init_client_def accepts_def)
  have d: "sent open_client = []" "prompt_name open_client = Some 1"
    "audio_content_name open_client = Some 4"
    by (simp_all add: open_client_def init_client_def)
  have 1: "send_audio_chunk [1, 2] init_client = (Inr (), init_client)"
    using a send_audio_chunk_guarded[of init_client "[1, 2]"] by blast
  have 2: "send_audio_chunk [1, 2] idle_client =
     (Inr (), idle_client\<lparr>logs := logs idle_client @ [WarnRejectingChunk]\<rparr>)"
    using b send_audio_chunk_guarded[of idle_client "[1, 2]"] by blast
  have "sent (snd (send_audio_chunk [1, 2] open_client)) =
      sent open_client @ [AudioInput (prompt_name open_client) (audio_content_name open_client) [1, 2]]"
    using c send_audio_chunk_guarded[of open_client "[1, 2]"] by blast
  then have 3: "sent (snd (send_audio_chunk [1, 2] open_client)) = [AudioInput (Some 1) (Some 4) [1, 2]]"
    by (simp only: d append_Nil)
  from 1 2 3 show ?thesis by blast
qed

text \<open>
  Claim C6 as stated fails on an inactive client: the call is a no-op, but it logs no
  warning.
\<close>
theorem send_audio_chunk_inactive_silent:
  "\<not> is_active init_client \<and>
   WarnRejectingChunk \<notin> set (logs (snd (send_audio_chunk [1, 2] init_client)))"
  by (simp add: send_audio_chunk_def init_client_def)

section \<open>Ending the session (\<^verbatim>\<open>end_session\<close>)\<close>

lemma end_session_inactive: "\<not> is_active c \<Longrightarrow> end_session c = c"
  by (simp add: end_session_def)

lemma end_session_done:
  "is_active c \<Longrightarrow> accepts 3 c \<Longrightarrow>
   sent (end_session c) = sent c @ [PromptEnd (prompt_name c), SessionEnd] \<and>
   \<not> is_active (end_session c) \<and> \<not> response_task (end_session c) \<and>
   logs (end_session c) = logs c"
  by (auto simp: end_session_def send_event_def close_input_stream_def accepts_def
      numeral_3_eq_3 split: option.splits)

lemma end_session_completes_iff:
  "is_active c \<Longrightarrow> \<not> is_active (end_session c) \<longleftrightarrow> accepts 3 c"
  by (auto simp: end_session_def send_event_def close_input_stream_def accepts_def log_line_def
      numeral_3_eq_3 split: option.splits)

lemma end_session_failed:
  "is_active c \<Longrightarrow> is_active (end_session c) \<Longrightarrow>
   \<exists>e. logs (end_session c) = logs c @ [ErrEndingSession e]"
  by (auto simp: end_session_def send_event_def close_input_stream_def log_line_def
      split: option.splits if_splits)

text \<open>
  Claim C8, amended. \<^verbatim>\<open>end_session\<close> on an inactive client changes nothing, and it cannot
  raise: the method returns the client in every case. On an active client it resets
  \<open>is_active\<close> exactly when the transport accepts its three operations (the prompt end, the
  session end, the closing of the input stream); it has then sent the prompt end and the
  session end, and logged nothing. Otherwise it logs one error and leaves the client
  active. A second call after a call that left the client inactive is the identity: it
  sends nothing.
\<close>
theorem end_session_idempotent:
  "(\<not> is_active c \<longrightarrow> end_session c = c) \<and>
   (is_active c \<longrightarrow> (\<not> is_active (end_session c) \<longleftrightarrow> accepts 3 c)) \<and>
   (is_active c \<and> accepts 3 c \<longrightarrow>
      sent (end_session c) = sent c @ [PromptEnd (prompt_name c), SessionEnd] \<and>
      logs (end_session c) = logs c) \<and>
   (is_active c \<and> \<not> accepts 3 c \<longrightarrow>
      (\<exists>e. logs (end_session c) = logs c @ [ErrEndingSession e])) \<and>
   (\<not> is_active (end_session c) \<longrightarrow> end_session (end_session c) = end_session c)"
proof -
  have "\<exists>e. logs (end_session c) = logs c @ [ErrEndingSession e]"
    if "is_active c \<and> \<not> accepts 3 c"
  proof -
    from that have "is_active (end_session c)" using end_session_completes_iff[of c] by blast
    with that show ?thesis using end_session_failed[of c] by blast
  qed
  with end_session_inactive[of c] end_session_inactive[of "end_session c"]
    end_session_completes_iff[of c] end_session_done[of c]
  show ?thesis by blast
qed

theorem end_session_idempotent_witness:
  "end_session init_client = init_client \<and>
   sent (end_session reliable_client) = [PromptEnd (Some 1), SessionEnd] \<and>
   \<not> is_active (end_session reliable_client) \<and>
   end_session (end_session reliable_client) = end_session reliable_client \<and>
   is_active (end_session idle_client) \<and>
   logs (end_session idle_client) = [ErrEndingSession TransportError]"
proof -
  have a: "\<not> is_active init_client" by (simp add: init_client_def)
  have b: "is_active reliable_client \<and> accepts 3 reliable_client"
    by (simp add: reliable_client_def init_client_def accepts_def numeral_3_eq_3)
  have c: "is_active idle_client \<and> \<not> accepts 3 idle_client"
    by (simp add: idle_client_def init_client_def accepts_def numeral_3_eq_3 later_def)
  have d: "sent reliable_client = []" "prompt_name reliable_client = Some 1"
    "logs idle_client = []"
    by (simp_all add: reliable_client_def idle_client_def init_client_def)
  have 1: "end_session init_client = init_client"
    using a end_session_idempotent[of init_client] by blast
  have 2: "sent (end_session reliable_client) =
      sent reliable_client @ [PromptEnd (prompt_name reliable_client), SessionEnd]"
    using b end_session_idempotent[of reliable_client] by blast
  have 3: "\<not> is_active (end_session reliable_client)"
    using b end_session_idempotent[of reliable_client] by blast
  then have 4: "end_session (end_session reliable_client) = end_session reliable_client"
    using end_session_idempotent[of reliable_client] by blast
  have 5: "is_active (end_session idle_client)"
    using c end_session_idempotent[of idle_client] by blast
  have "\<exists>e. logs (end_session idle_client) = logs idle_client @ [ErrEndingSession e]"
    using c end_session_idempotent[of idle_client] by blast
  then obtain e where "logs (end_session idle_client) = [ErrEndingSession e]"
    by (auto simp only: d append_Nil)
  moreover have "last (logs (end_session idle_client)) = ErrEndingSession TransportError"
    by (simp add: end_session_def idle_client_def init_client_def send_event_def
        close_input_stream_def log_line_def later_def)
  ultimately have 6: "logs (end_session idle_client) = [ErrEndingSession TransportError]"
    by simp
  from 2 have "sent (end_session reliable_client) = [PromptEnd (Some 1), SessionEnd]"
    by (simp only: d append_Nil)
  with 1 3 4 5 6 show ?thesis by blast
qed

text \<open>
  Claim C8 as stated fails when the first call does not complete. On a client whose
  transport accepts the two events and then refuses the closing of the input stream, the
  first call leaves the client active, and the second call sends both events again.
\<close>
theorem end_session_repeats_after_failed_close:
  "is_active unclosable_client \<and>
   sent (end_session unclosable_client) = [PromptEnd (Some 1), SessionEnd] \<and>
   is_active (end_session unclosable_client) \<and>
   sent (end_session (end_session unclosable_client)) =
     [PromptEnd (Some 1), SessionEnd, PromptEnd (Some 1), SessionEnd]"
  by (simp add: unclosable_client_def init_client_def end_session_def send_event_def
      close_input_stream_def log_line_def later_def)

section \<open>The audio buffer (\<^verbatim>\<open>add_audio\<close>)\<close>

lemma keep_last_append:
  "keep_last n (keep_last n xs @ ys) = keep_last n (xs @ ys)"
proof (cases "length xs \<le> n")
  case True
  then show ?thesis by (simp add: keep_last_def)
next
  case False
  then have "length xs + length ys - (length xs - n + n) + (length xs - n) = length xs + length ys - n"
    by arith
  with False show ?thesis by (simp add: keep_last_def)
qed

lemma keep_last_short: "length xs \<le> n \<Longrightarrow> keep_last n xs = xs"
  by (simp add: keep_last_def)

lemma length_keep_last: "length (keep_last n xs) = min n (length xs)"
  by (simp add: keep_last_def)

lemma add_audio_eq:
  "add_audio now d p =
     (keep_last BUFFER_MAX_SIZE (audio_buffer p @ d) \<noteq> [],
      p\<lparr> audio_buffer := keep_last BUFFER_MAX_SIZE (audio_buffer p @ d),
         last_audio_time := (if d \<noteq> [] then now else last_audio_time p),
         has_audio := (has_audio p \<or> d \<noteq> []) \<rparr>)"
  by (cases "d = []") (auto simp: add_audio_def keep_last_def Let_def BUFFER_MAX_SIZE_def)

lemma add_audio_buffer:
  "audio_buffer (snd (add_audio now d p)) = keep_last BUFFER_MAX_SIZE (audio_buffer p @ d)"
  by (simp add: add_audio_eq)

lemma add_all_buffer:
  "length (audio_buffer p) \<le> BUFFER_MAX_SIZE \<Longrightarrow>
   audio_buffer (add_all calls p) =
     keep_last BUFFER_MAX_SIZE (audio_buffer p @ concat (map snd calls))"
proof (induction calls arbitrary: p)
  case Nil
  then show ?case by (simp add: keep_last_short)
next
  case (Cons call calls)
  obtain now d where call: "call = (now, d)" by (cases call)
  have "length (audio_buffer (snd (add_audio now d p))) \<le> BUFFER_MAX_SIZE"
    by (simp add: add_audio_buffer length_keep_last)
  from Cons.IH[OF this] call show ?case
    by (simp add: add_audio_buffer keep_last_append)
qed

lemma add_audio_same_tail:
  assumes "keep_last BUFFER_MAX_SIZE (audio_buffer p @ d) = keep_last BUFFER_MAX_SIZE (audio_buffer q @ d)"
    and "p\<lparr>audio_buffer := []\<rparr> = q\<lparr>audio_buffer := []\<rparr>"
  shows "add_audio now d p = add_audio now d q"
proof -
  have "last_audio_time (p\<lparr>audio_buffer := []\<rparr>) = last_audio_time (q\<lparr>audio_buffer := []\<rparr>)"
    "has_audio (p\<lparr>audio_buffer := []\<rparr>) = has_audio (q\<lparr>audio_buffer := []\<rparr>)"
    "is_processing (p\<lparr>audio_buffer := []\<rparr>) = is_processing (q\<lparr>audio_buffer := []\<rparr>)"
    "audio_processor.more (p\<lparr>audio_buffer := []\<rparr>) = audio_processor.more (q\<lparr>audio_buffer := []\<rparr>)"
    using assms(2) by simp_all
  then have "last_audio_time p = last_audio_time q" "has_audio p = has_audio q"
    "is_processing p = is_processing q" "audio_processor.more p = audio_processor.more q"
    by simp_all
  with assms(1) show ?thesis
    by (simp add: add_audio_eq audio_processor.equality)
qed

lemma full_tails:
  "keep_last BUFFER_MAX_SIZE (audio_buffer full_processor @ [7]) = replicate 102400 7"
  "keep_last BUFFER_MAX_SIZE (audio_buffer nearly_full_processor @ [7]) = replicate 102400 7"
  "full_processor\<lparr>audio_buffer := []\<rparr> = nearly_full_processor\<lparr>audio_buffer := []\<rparr>"
proof -
  have r: "replicate 102400 (7::byte) = 7 # replicate 102399 7"
    by (simp add: replicate_Suc[symmetric] del: replicate_Suc replicate.simps)
  show "keep_last BUFFER_MAX_SIZE (audio_buffer full_processor @ [7]) = replicate 102400 7"
    by (simp add: keep_last_def BUFFER_MAX_SIZE_def replicate_append_same full_processor_def)
  show "keep_last BUFFER_MAX_SIZE (audio_buffer nearly_full_processor @ [7]) = replicate 102400 7"
    by (simp add: keep_last_def BUFFER_MAX_SIZE_def replicate_append_same r nearly_full_processor_def)
  show "full_processor\<lparr>audio_buffer := []\<rparr> = nearly_full_processor\<lparr>audio_buffer := []\<rparr>"
    by (simp add: full_processor_def nearly_full_processor_def)
qed

text \<open>
  Claim C7, amended. After every call of \<^verbatim>\<open>add_audio\<close> the buffer holds at most
  \<^verbatim>\<open>BUFFER_MAX_SIZE\<close> bytes, namely the last \<^verbatim>\<open>BUFFER_MAX_SIZE\<close> bytes of the old buffer
  followed by the new data; after a sequence of calls on a buffer within the cap it
  holds the last \<^verbatim>\<open>BUFFER_MAX_SIZE\<close> bytes of everything received. The method is total:
  an overrun raises nothing. The overrun is neither logged nor counted: two processors
  that differ only in buffers with the same last bytes give the same result and the
  same processor.
\<close>
theorem add_audio_bounded:
  "length (audio_buffer (snd (add_audio now d p))) \<le> BUFFER_MAX_SIZE \<and>
   audio_buffer (snd (add_audio now d p)) = keep_last BUFFER_MAX_SIZE (audio_buffer p @ d) \<and>
   (length (audio_buffer p) \<le> BUFFER_MAX_SIZE \<longrightarrow>
      length (audio_buffer (add_all calls p)) \<le> BUFFER_MAX_SIZE \<and>
      audio_buffer (add_all calls p) =
        keep_last BUFFER_MAX_SIZE (audio_buffer p @ concat (map snd calls))) \<and>
   (keep_last BUFFER_MAX_SIZE (audio_buffer p @ d) = keep_last BUFFER_MAX_SIZE (audio_buffer q @ d) \<and>
    p\<lparr>audio_buffer := []\<rparr> = q\<lparr>audio_buffer := []\<rparr> \<longrightarrow>
      add_audio now d p = add_audio now d q)"
proof -
  have 1: "length (audio_buffer (snd (add_audio now d p))) \<le> BUFFER_MAX_SIZE"
    by (simp add: add_audio_buffer length_keep_last)
  have 2: "length (audio_buffer p) \<le> BUFFER_MAX_SIZE \<longrightarrow>
      length (audio_buffer (add_all calls p)) \<le> BUFFER_MAX_SIZE \<and>
      audio_buffer (add_all calls p) =
        keep_last BUFFER_MAX_SIZE (audio_buffer p @ concat (map snd calls))"
    by (simp add: add_all_buffer length_keep_last)
  have 3: "keep_last BUFFER_MAX_SIZE (audio_buffer p @ d) = keep_last BUFFER_MAX_SIZE (audio_buffer q @ d) \<and>
    p\<lparr>audio_buffer := []\<rparr> = q\<lparr>audio_buffer := []\<rparr> \<longrightarrow>
      add_audio now d p = add_audio now d q"
    using add_audio_same_tail[of p d q now] by (intro impI) (elim conjE)
  show ?thesis
    by (intro conjI) (rule 1, rule add_audio_buffer, rule 2, rule 3)
qed

theorem add_audio_bounded_witness:
  "audio_buffer (add_all [(1, [1, 2]), (2, [3])] (new_audio_processor 0)) = [1, 2, 3] \<and>
   add_audio 1 [7] full_processor = add_audio 1 [7] nearly_full_processor"
proof -
  have a: "length (audio_buffer (new_audio_processor 0)) \<le> BUFFER_MAX_SIZE"
    by (simp add: new_audio_processor_def)
  have "audio_buffer (add_all [(1, [1, 2]), (2, [3])] (new_audio_processor 0)) =
      keep_last BUFFER_MAX_SIZE
        (audio_buffer (new_audio_processor 0) @ concat (map snd [(1::time, [1, 2::byte]), (2, [3])]))"
    by (rule add_audio_bounded[of 0 "[]" "new_audio_processor 0" "[(1, [1, 2]), (2, [3])]",
          THEN conjunct2, THEN conjunct2, THEN conjunct1, THEN mp, OF a, THEN conjunct2])
  then have 1: "audio_buffer (add_all [(1, [1, 2]), (2, [3])] (new_audio_processor 0)) = [1, 2, 3]"
    by (simp add: new_audio_processor_def keep_last_def BUFFER_MAX_SIZE_def)
  have b: "keep_last BUFFER_MAX_SIZE (audio_buffer full_processor @ [7]) =
      keep_last BUFFER_MAX_SIZE (audio_buffer nearly_full_processor @ [7]) \<and>
      full_processor\<lparr>audio_buffer := []\<rparr> = nearly_full_processor\<lparr>audio_buffer := []\<rparr>"
    by (simp only: full_tails simp_thms)
  have 2: "add_audio 1 [7] full_processor = add_audio 1 [7] nearly_full_processor"
    by (rule add_audio_bounded[of 1 "[7]" full_processor "[]" nearly_full_processor,
          THEN conjunct2, THEN conjunct2, THEN conjunct2, THEN mp, OF b])
  from 1 2 show ?thesis by (rule conjI)
qed

text \<open>
  Claim C7 as stated fails in its clause on logging and counting: appending one byte to
  a full buffer overruns the cap, appending it to a buffer one byte short does not, and
  the two calls return the same value and leave the same processor, so nothing records
  that bytes were dropped.
\<close>
theorem add_audio_overrun_leaves_no_trace:
  "length (audio_buffer full_processor @ [7]) > BUFFER_MAX_SIZE \<and>
   \<not> length (audio_buffer nearly_full_processor @ [7]) > BUFFER_MAX_SIZE \<and>
   add_audio 1 [7] full_processor = add_audio 1 [7] nearly_full_processor"
proof -
  have "add_audio 1 [7] full_processor = add_audio 1 [7] nearly_full_processor"
    by (rule add_audio_same_tail) (simp_all only: full_tails)
  then show ?thesis
    by (simp add: full_processor_def nearly_full_processor_def BUFFER_MAX_SIZE_def)
qed

section \<open>Token verification and \<^verbatim>\<open>initialize_session\<close>\<close>

lemma verify_auth_token_admitted:
  "fst (verify_auth_token validate tok) \<noteq> None \<longleftrightarrow> admitted validate tok"
  by (auto simp: verify_auth_token_def admitted_def split: option.splits verdict.splits)

lemma initialize_refused:
  assumes "\<not> admitted (validate_token env) tok"
  shows "nova_session (handle_message env (InitializeSession tok) g) = nova_session g \<and>
     conn_session_id (handle_message env (InitializeSession tok) g) = conn_session_id g \<and>
     active_sessions (handle_message env (InitializeSession tok) g) = active_sessions g \<and>
     outbox (handle_message env (InitializeSession tok) g) =
       outbox g @ [ErrorMsg ''Authentication failed'']"
proof -
  obtain a ls where v: "verify_auth_token (validate_token env) tok = (a, ls)"
    by (cases "verify_auth_token (validate_token env) tok")
  with assms verify_auth_token_admitted[of "validate_token env" tok] have "a = None" by simp
  with v show ?thesis
    by (simp add: handle_message_def handle_initialize_session_def send_json_def)
qed

lemma initialize_admitted:
  assumes "admitted (validate_token env) tok"
  shows "nova_session (handle_message env (InitializeSession tok) g) =
       Some (new_session (clock env div 1000) (clock env)) \<and>
     conn_session_id (handle_message env (InitializeSession tok) g) = Some (clock env div 1000) \<and>
     clock env div 1000 \<in> active_sessions (handle_message env (InitializeSession tok) g) \<and>
     outbox (handle_message env (InitializeSession tok) g) =
       outbox g @ [if redis_pool g = Some False then ErrorMsg (err_text RedisError)
                   else SessionInitialized (clock env div 1000)]"
proof -
  obtain a ls where v: "verify_auth_token (validate_token env) tok = (a, ls)"
    by (cases "verify_auth_token (validate_token env) tok")
  with assms verify_auth_token_admitted[of "validate_token env" tok] obtain u where "a = Some u"
    by auto
  with v show ?thesis
    by (simp add: handle_message_def handle_initialize_session_def send_json_def
        message_error_def Let_def)
qed

text \<open>
  Claim C9, amended. On \<^verbatim>\<open>initialize_session\<close> a session is created exactly when the token
  is admitted: it is not empty and either the identity collaborator verifies it or it is a
  test token (\<^verbatim>\<open>mock-token-for-testing\<close>, or any token beginning with \<^verbatim>\<open>test-\<close>). Then the
  session is stored and registered and \<^verbatim>\<open>session_initialized\<close> is the reply (an error
  instead, if storing in Redis raises). Otherwise the reply is the authentication error,
  and the session, its identifier and the registry are left as they were.
\<close>
theorem initialize_session_admission:
  "(admitted (validate_token env) tok \<longrightarrow>
      nova_session (handle_message env (InitializeSession tok) g) =
        Some (new_session (clock env div 1000) (clock env)) \<and>
      conn_session_id (handle_message env (InitializeSession tok) g) = Some (clock env div 1000) \<and>
      clock env div 1000 \<in> active_sessions (handle_message env (InitializeSession tok) g) \<and>
      outbox (handle_message env (InitializeSession tok) g) =
        outbox g @ [if redis_pool g = Some False then ErrorMsg (err_text RedisError)
                    else SessionInitialized (clock env div 1000)]) \<and>
   (\<not> admitted (validate_token env) tok \<longrightarrow>
      nova_session (handle_message env (InitializeSession tok) g) = nova_session g \<and>
      conn_session_id (handle_message env (InitializeSession tok) g) = conn_session_id g \<and>
      active_sessions (handle_message env (InitializeSession tok) g) = active_sessions g \<and>
      outbox (handle_message env (InitializeSession tok) g) =
        outbox g @ [ErrorMsg ''Authentication failed''])"
  by (rule conjI; rule impI) (erule initialize_admitted, erule initialize_refused)

lemma rejecting_facts:
  "admitted (validate_token rejecting_env) (Some ''test-1'')"
  "\<not> admitted (validate_token rejecting_env) (Some ''stranger'')"
  "clock rejecting_env div 1000 = 5000" "clock rejecting_env = 5000000"
  "outbox fresh_connection = [ConnectionEstablished]"
  "redis_pool fresh_connection \<noteq> Some False"
  "nova_session fresh_connection = None"
  by (simp_all add: admitted_def rejecting_env_def is_test_token_def fresh_connection_def)

theorem initialize_session_admission_witness:
  "nova_session (handle_message rejecting_env (InitializeSession (Some ''test-1'')) fresh_connection) =
     Some (new_session 5000 5000000) \<and>
   outbox (handle_message rejecting_env (InitializeSession (Some ''stranger'')) fresh_connection) =
     [ConnectionEstablished, ErrorMsg ''Authentication failed''] \<and>
   nova_session (handle_message rejecting_env (InitializeSession (Some ''stranger'')) fresh_connection) = None"
proof -
  note a = initialize_session_admission[of rejecting_env "Some ''test-1''" fresh_connection,
      THEN conjunct1, THEN mp, OF rejecting_facts(1)]
  note b = initialize_session_admission[of rejecting_env "Some ''stranger''" fresh_connection,
      THEN conjunct2, THEN mp, OF rejecting_facts(2)]
  have 1: "nova_session (handle_message rejecting_env (InitializeSession (Some ''test-1'')) fresh_connection) =
     Some (new_session 5000 5000000)"
    using a by (simp add: rejecting_facts)
  have 2: "outbox (handle_message rejecting_env (InitializeSession (Some ''stranger'')) fresh_connection) =
     [ConnectionEstablished, ErrorMsg ''Authentication failed'']"
    using b by (simp add: rejecting_facts)
  have 3: "nova_session (handle_message rejecting_env (InitializeSession (Some ''stranger'')) fresh_connection) = None"
    using b by (simp add: rejecting_facts)
  from 1 2 3 show ?thesis by (intro conjI)
qed

text \<open>
  Claim C9 as stated fails for a test token: the collaborator rejects \<^verbatim>\<open>test-1\<close>, and still
  a session is created and \<^verbatim>\<open>session_initialized\<close> is the reply.
\<close>
theorem test_token_bypasses_verification:
  "validate_token rejecting_env ''test-1'' = Rejected \<and>
   nova_session (handle_message rejecting_env (InitializeSession (Some ''test-1'')) fresh_connection) \<noteq> None \<and>
   outbox (handle_message rejecting_env (InitializeSession (Some ''test-1'')) fresh_connection) =
     [ConnectionEstablished, SessionInitialized 5000]"
proof -
  note a = initialize_admitted[of rejecting_env "Some ''test-1''" fresh_connection, OF rejecting_facts(1)]
  have "validate_token rejecting_env ''test-1'' = Rejected" by (simp add: rejecting_env_def)
  moreover have "nova_session (handle_message rejecting_env (InitializeSession (Some ''test-1'')) fresh_connection) \<noteq> None"
    using a by simp
  moreover have "outbox (handle_message rejecting_env (InitializeSession (Some ''test-1'')) fresh_connection) =
     [ConnectionEstablished, SessionInitialized 5000]"
    using a by (simp add: rejecting_facts)
  ultimately show ?thesis by (intro conjI)
qed

section \<open>The inactivity watchdog\<close>








section \<open>One turn on a transport that does not fail\<close>

lemma send_chunks_unlimited:
  "is_active c \<Longrightarrow> content_open c \<Longrightarrow> audio_content_name c = Some a \<Longrightarrow> stream c = Some reliable \<Longrightarrow>
   send_chunks chs c = (Inr (), c\<lparr>sent := sent c @ map (AudioInput (prompt_name c) (Some a)) chs\<rparr>)"
proof (induction chs arbitrary: c)
  case Nil
  then show ?case by simp
next
  case (Cons ch chs)
  let ?c1 = "c\<lparr>sent := sent c @ [AudioInput (prompt_name c) (Some a) ch]\<rparr>"
  have step: "send_audio_chunk ch c = (Inr (), ?c1)"
    using Cons.prems by (simp add: send_audio_chunk_def send_event_unlimited)
  have "send_chunks chs ?c1 =
      (Inr (), ?c1\<lparr>sent := sent ?c1 @ map (AudioInput (prompt_name ?c1) (Some a)) chs\<rparr>)"
    using Cons.prems by (intro Cons.IH) simp_all
  with step show ?case by simp
qed

lemma start_session_unlimited:
  "start_session (Some reliable) c =
     (True, c\<lparr> session_id := Some (next_uuid c),
               prompt_name := Some (next_uuid c + 1),
               content_name := Some (next_uuid c + 2),
               audio_content_name := Some (next_uuid c + 3),
               next_uuid := next_uuid c + 4,
               stream := Some reliable, is_active := True,
               prompt_starts := prompt_starts c + 1,
               response_task := True,
               sent := sent c @ session_events (Some (next_uuid c + 1)) (Some (next_uuid c + 2)) \<rparr>)"
  by (simp add: start_session_def send_event_unlimited session_events_def Let_def)

lemma process_response_frame:
  "sent (process_response ev c) = sent c \<and> logs (process_response ev c) = logs c \<and>
   stream (process_response ev c) = stream c \<and> is_active (process_response ev c) = is_active c \<and>
   response_task (process_response ev c) = response_task c \<and>
   prompt_name (process_response ev c) = prompt_name c \<and>
   content_name (process_response ev c) = content_name c \<and>
   audio_content_name (process_response ev c) = audio_content_name c \<and>
   session_id (process_response ev c) = session_id c \<and>
   content_open (process_response ev c) = content_open c \<and>
   prompt_starts (process_response ev c) = prompt_starts c \<and>
   prompt_ends (process_response ev c) = prompt_ends c \<and>
   content_starts (process_response ev c) = content_starts c \<and>
   content_ends (process_response ev c) = content_ends c \<and>
   next_uuid (process_response ev c) = next_uuid c"
  by (cases ev) (simp_all add: process_response_def Let_def split: option.splits model_fields.splits)

lemma reader_frame:
  "sent (reader evs c) = sent c \<and> logs (reader evs c) = logs c \<and>
   stream (reader evs c) = stream c \<and> is_active (reader evs c) = is_active c \<and>
   response_task (reader evs c) = response_task c \<and>
   prompt_name (reader evs c) = prompt_name c \<and>
   content_name (reader evs c) = content_name c \<and>
   audio_content_name (reader evs c) = audio_content_name c \<and>
   session_id (reader evs c) = session_id c \<and>
   content_open (reader evs c) = content_open c \<and>
   prompt_starts (reader evs c) = prompt_starts c \<and>
   prompt_ends (reader evs c) = prompt_ends c \<and>
   content_starts (reader evs c) = content_starts c \<and>
   content_ends (reader evs c) = content_ends c \<and>
   next_uuid (reader evs c) = next_uuid c"
  unfolding reader_def
  by (induction evs arbitrary: c) (simp_all add: process_response_frame)

lemma next_event_frame:
  "next_event c = (ev, c') \<Longrightarrow>
   sent c' = sent c \<and> logs c' = logs c \<and> stream c' = stream c \<and> is_active c' = is_active c \<and>
   response_task c' = response_task c \<and> prompt_name c' = prompt_name c \<and>
   content_name c' = content_name c \<and> audio_content_name c' = audio_content_name c \<and>
   session_id c' = session_id c \<and> content_open c' = content_open c \<and>
   prompt_starts c' = prompt_starts c \<and> prompt_ends c' = prompt_ends c \<and>
   content_starts c' = content_starts c \<and> content_ends c' = content_ends c \<and>
   next_uuid c' = next_uuid c \<and> role c' = role c \<and> text_queue c' = text_queue c \<and>
   audio_queue c' = audio_queue c"
  by (auto simp: next_event_def split: list.splits)


lemma forward_turn_active:
  assumes "is_active c" "\<not> content_open c" "stream c = Some reliable" "prompt_name c \<noteq> None"
    and "forward_turn env d c = (r, c')"
  shows "r = Inr ()"
    and "sent c' = sent c @ turn_events (prompt_name c) (Some (next_uuid c)) d"
    and "content_starts c' = content_starts c + 1"
    and "content_ends c' = content_ends c + 1"
    and "\<not> content_open c'" and "is_active c'" and "stream c' = Some reliable"
    and "prompt_name c' = prompt_name c" and "audio_content_name c' = None"
    and "audio_queue c' = []" and "text_queue c' = []" and "role c' = role c"
    and "event_queue c' = event_queue c"
  using assms
  by (auto simp: forward_turn_def start_audio_input_def send_event_unlimited send_chunks_unlimited
      end_audio_input_def log_line_def turn_events_def Let_def)






lemma forward_turn_fresh:
  assumes "\<not> is_active c" "\<not> content_open c" "connect env = Some reliable"
    and "forward_turn env d c = (r, c')"
  shows "r = Inr ()"
    and "sent c' = sent c @ session_events (Some (next_uuid c + 1)) (Some (next_uuid c + 2)) @
           turn_events (Some (next_uuid c + 1)) (Some (next_uuid c + 4)) d"
    and "content_starts c' = content_starts c + 1"
    and "content_ends c' = content_ends c + 1"
    and "\<not> content_open c'" and "is_active c'" and "stream c' = Some reliable"
    and "prompt_name c' \<noteq> None" and "audio_content_name c' = None"
proof -
  obtain c0 where c0: "start_session (Some reliable) c = (True, c0)"
    and f0: "is_active c0" "\<not> content_open c0" "stream c0 = Some reliable"
       "prompt_name c0 = Some (next_uuid c + 1)" "next_uuid c0 = next_uuid c + 4"
       "sent c0 = sent c @ session_events (Some (next_uuid c + 1)) (Some (next_uuid c + 2))"
       "content_starts c0 = content_starts c" "content_ends c0 = content_ends c"
    using assms(2) by (simp add: start_session_unlimited)
  let ?c1 = "reader (early env) c0"
  have f1: "is_active ?c1" "\<not> content_open ?c1" "stream ?c1 = Some reliable"
       "prompt_name ?c1 = Some (next_uuid c + 1)" "next_uuid ?c1 = next_uuid c + 4"
       "sent ?c1 = sent c @ session_events (Some (next_uuid c + 1)) (Some (next_uuid c + 2))"
       "content_starts ?c1 = content_starts c" "content_ends ?c1 = content_ends c"
    using f0 by (simp_all add: reader_frame)
  have eq: "forward_turn env d c = forward_turn env d ?c1"
    using assms(1,3) c0 f1(1) by (simp add: forward_turn_def)
  then have ft: "forward_turn env d ?c1 = (r, c')" using assms(4) by simp
  have p: "prompt_name ?c1 \<noteq> None" using f1(4) by simp
  note a = forward_turn_active[OF f1(1) f1(2) f1(3) p ft]
  show "r = Inr ()" by (rule a(1))
  show "sent c' = sent c @ session_events (Some (next_uuid c + 1)) (Some (next_uuid c + 2)) @
           turn_events (Some (next_uuid c + 1)) (Some (next_uuid c + 4)) d"
    using a(2) f1 by simp
  show "content_starts c' = content_starts c + 1" using a(3) f1 by simp
  show "content_ends c' = content_ends c + 1" using a(4) f1 by simp
  show "\<not> content_open c'" by (rule a(5))
  show "is_active c'" by (rule a(6))
  show "stream c' = Some reliable" by (rule a(7))
  show "prompt_name c' \<noteq> None" using a(8) p by simp
  show "audio_content_name c' = None" by (rule a(9))
qed

lemma forward_turn_ready:
  assumes "ready env c" "forward_turn env d c = (r, c')"
  shows "r = Inr () \<and> sent c' = sent c @ expected_events c d \<and>
     content_starts c' = content_starts c + 1 \<and> content_ends c' = content_ends c + 1 \<and>
     \<not> content_open c' \<and> is_active c' \<and> stream c' = Some reliable \<and> prompt_name c' \<noteq> None \<and>
     audio_content_name c' = None"
proof (cases "is_active c")
  case True
  then have h: "\<not> content_open c" "stream c = Some reliable" "prompt_name c \<noteq> None"
    using assms(1) by (simp_all add: ready_def)
  note a = forward_turn_active[OF True h assms(2)]
  from a True h(3) show ?thesis by (simp add: expected_events_def)
next
  case False
  then have h: "\<not> content_open c" "connect env = Some reliable"
    using assms(1) by (simp_all add: ready_def)
  note a = forward_turn_fresh[OF False h assms(2)]
  from a False show ?thesis by (simp add: expected_events_def)
qed










section \<open>An utterance from audio messages to the model\<close>


lemma session_connection_facts:
  "nova_session session_connection = Some (new_session 5000 5000000)"
  "\<not> closed session_connection"
  "audio_buffer (audio_processor (new_session 5000 5000000)) = []"
  "ready (turn rejecting_env) (nova_service (new_session 5000 5000000))"
  "sent_to_model session_connection = []"
  "nova_service (new_session 5000 5000000) = init_client"
  by (simp_all add: session_connection_def fresh_connection_def new_session_def
      new_audio_processor_def ready_def init_client_def rejecting_env_def silent_turn_def
      sent_to_model_def)



section \<open>A turn without output\<close>

lemma nothing_collected:
  assumes "collected env d c = Some (ac, tp)" "concat ac = []" "join_space tp = []"
  shows "fst (process_audio_simple env d c) = no_response"
proof -
  obtain r c1 where ft: "forward_turn env d c = (r, c1)" by (cases "forward_turn env d c")
  with assms(1) have r: "r = Inr ()" by (cases r) (simp_all add: collected_def)
  obtain ac' tp' c2 where col: "collect (polls env) [] [] c1 = (ac', tp', c2)"
    by (cases "collect (polls env) [] [] c1") auto
  with assms(1) ft r have "ac' = ac" "tp' = tp" by (simp_all add: collected_def)
  with ft r col assms(2,3) show ?thesis
    by (simp add: process_audio_simple_def combine_def)
qed

lemma process_with_nova_reply:
  "fst (process_with_nova env d s) =
     (let result = fst (process_audio_simple env d (nova_service s)) in
      if mode result \<noteq> Some ''bidirectional_stream'' then Failure (err_text WrongMode)
      else if success result then Reply (audio result) (text_out result)
      else Failure (case error_msg result of None \<Rightarrow> ''Unknown error'' | Some m \<Rightarrow> m))"
  by (simp add: process_with_nova_def stop_listening_def convert_to_pcm_16khz_def Let_def
      split: prod.splits)

lemma end_of_utterance_outbox:
  assumes "nova_session g = Some s"
    and "length (audio_buffer (audio_processor s)) \<le> BUFFER_MAX_SIZE"
    and "keep_last BUFFER_MAX_SIZE (audio_buffer (audio_processor s) @ data) \<noteq> []"
  shows "\<exists>s2. nova_service s2 = nova_service s \<and>
     outbox (handle_message env (AudioInputMsg (Some data) True) g) =
       outbox g @ reply_messages (fst (process_with_nova (turn env)
          (keep_last BUFFER_MAX_SIZE (audio_buffer (audio_processor s) @ data)) s2))"
proof -
  let ?acc = "keep_last BUFFER_MAX_SIZE (audio_buffer (audio_processor s) @ data)"
  define s1 where "s1 = (if data \<noteq> []
                    then
                      let s' = s\<lparr> audio_processor :=
                                     snd (add_audio (clock env) data (audio_processor s)),
                                   last_activity := clock env \<rparr>
                      in if \<not> is_listening s' then start_listening (clock env) s' else s'
                    else s)"
  have b1: "audio_buffer (audio_processor s1) = ?acc"
    using assms(2)
    by (cases "data = []")
       (simp_all add: s1_def Let_def start_listening_def add_audio_buffer keep_last_short)
  have n1: "nova_service s1 = nova_service s"
    by (simp add: s1_def Let_def start_listening_def)
  let ?s2 = "s1\<lparr>audio_processor := (audio_processor s1)\<lparr>audio_buffer := []\<rparr>\<rparr>"
  obtain rep s3 where pw: "process_with_nova (turn env) ?acc ?s2 = (rep, s3)"
    by (cases "process_with_nova (turn env) ?acc ?s2")
  have "outbox (handle_message env (AudioInputMsg (Some data) True) g) = outbox g @ reply_messages rep"
    using assms(1,3) b1 pw
    by (cases rep)
       (simp_all add: handle_message_def handle_audio_input_def clear_buffer_def send_json_def
          s1_def[symmetric] Let_def)
  with pw n1 show ?thesis by (intro exI[of _ ?s2]) simp
qed

lemma no_reply_one_error:
  assumes "nova_session g = Some s"
    and "length (audio_buffer (audio_processor s)) \<le> BUFFER_MAX_SIZE"
    and "keep_last BUFFER_MAX_SIZE (audio_buffer (audio_processor s) @ data) \<noteq> []"
    and "collected (turn env)
           (keep_last BUFFER_MAX_SIZE (audio_buffer (audio_processor s) @ data))
           (nova_service s) = Some (ac, tp)"
    and "concat ac = []" "join_space tp = []"
  shows "outbox (handle_message env (AudioInputMsg (Some data) True) g) =
     outbox g @ [ErrorMsg ''Must use bidirectional_stream mode'']"
proof -
  let ?acc = "keep_last BUFFER_MAX_SIZE (audio_buffer (audio_processor s) @ data)"
  from end_of_utterance_outbox[OF assms(1-3), of env]
  obtain s2 where s2: "nova_service s2 = nova_service s"
    "outbox (handle_message env (AudioInputMsg (Some data) True) g) =
       outbox g @ reply_messages (fst (process_with_nova (turn env) ?acc s2))"
    by blast
  have "fst (process_audio_simple (turn env) ?acc (nova_service s2)) = no_response"
    unfolding s2(1) by (rule nothing_collected[OF assms(4-6)])
  then have "fst (process_with_nova (turn env) ?acc s2) = Failure (err_text WrongMode)"
    by (simp add: process_with_nova_reply no_response_def)
  with s2(2) show ?thesis by (simp add: err_text_def)
qed

lemma collected_silent:
  assumes "ready env c" "polls env = []"
  shows "collected env d c = Some ([], [])"
proof -
  obtain r c1 where ft: "forward_turn env d c = (r, c1)" by (cases "forward_turn env d c")
  from forward_turn_ready[OF assms(1) ft] have "r = Inr ()" by blast
  with ft assms(2) show ?thesis by (simp add: collected_def)
qed

text \<open>
  Claim C4. When the collecting loop of \<^verbatim>\<open>process_audio_simple\<close> ends with no audio and no
  text accumulated, the call returns (it cannot raise) the result with
  \<^verbatim>\<open>success = False\<close>, empty audio and empty text. When this happens for the audio that
  an end-of-utterance message flushes, the client is sent exactly one message, an
  error, and neither audio nor transcript nor completion. (The error text is that of the
  mode check in \<^verbatim>\<open>process_with_nova\<close>, since the failure result carries no metadata.)
\<close>
theorem no_output_is_one_error:
  "(collected env d c = Some (ac, tp) \<and> concat ac = [] \<and> join_space tp = [] \<longrightarrow>
      \<not> success (fst (process_audio_simple env d c)) \<and>
      audio (fst (process_audio_simple env d c)) = [] \<and>
      text_out (fst (process_audio_simple env d c)) = [] \<and>
      error_msg (fst (process_audio_simple env d c)) =
        Some ''No response received from BIDIRECTIONAL stream'') \<and>
   (nova_session g = Some s \<and>
    length (audio_buffer (audio_processor s)) \<le> BUFFER_MAX_SIZE \<and>
    keep_last BUFFER_MAX_SIZE (audio_buffer (audio_processor s) @ data) \<noteq> [] \<and>
    collected (turn menv)
      (keep_last BUFFER_MAX_SIZE (audio_buffer (audio_processor s) @ data))
      (nova_service s) = Some (ac', tp') \<and>
    concat ac' = [] \<and> join_space tp' = [] \<longrightarrow>
      outbox (handle_message menv (AudioInputMsg (Some data) True) g) =
        outbox g @ [ErrorMsg ''Must use bidirectional_stream mode''])"
proof (rule conjI; rule impI)
  assume "collected env d c = Some (ac, tp) \<and> concat ac = [] \<and> join_space tp = []"
  then have "fst (process_audio_simple env d c) = no_response"
    using nothing_collected by blast
  then show "\<not> success (fst (process_audio_simple env d c)) \<and>
      audio (fst (process_audio_simple env d c)) = [] \<and>
      text_out (fst (process_audio_simple env d c)) = [] \<and>
      error_msg (fst (process_audio_simple env d c)) =
        Some ''No response received from BIDIRECTIONAL stream''"
    by (simp add: no_response_def)
next
  assume "nova_session g = Some s \<and>
    length (audio_buffer (audio_processor s)) \<le> BUFFER_MAX_SIZE \<and>
    keep_last BUFFER_MAX_SIZE (audio_buffer (audio_processor s) @ data) \<noteq> [] \<and>
    collected (turn menv)
      (keep_last BUFFER_MAX_SIZE (audio_buffer (audio_processor s) @ data))
      (nova_service s) = Some (ac', tp') \<and>
    concat ac' = [] \<and> join_space tp' = []"
  then show "outbox (handle_message menv (AudioInputMsg (Some data) True) g) =
        outbox g @ [ErrorMsg ''Must use bidirectional_stream mode'']"
    using no_reply_one_error by blast
qed

theorem no_output_is_one_error_witness:
  "\<not> success (fst (process_audio_simple silent_turn [1, 2] init_client)) \<and>
   audio (fst (process_audio_simple silent_turn [1, 2] init_client)) = [] \<and>
   text_out (fst (process_audio_simple silent_turn [1, 2] init_client)) = [] \<and>
   outbox (handle_message rejecting_env (AudioInputMsg (Some [1, 2]) True) session_connection) =
     [ConnectionEstablished, ErrorMsg ''Must use bidirectional_stream mode'']"
proof -
  have r: "ready silent_turn init_client"
    by (simp add: ready_def init_client_def silent_turn_def)
  have p: "polls silent_turn = []" by (simp add: silent_turn_def)
  have t: "turn rejecting_env = silent_turn" by (simp add: rejecting_env_def)
  have k: "keep_last BUFFER_MAX_SIZE
       (audio_buffer (audio_processor (new_session 5000 5000000)) @ [1, 2]) = [1, 2::byte]"
    by (simp add: keep_last_def new_session_def new_audio_processor_def BUFFER_MAX_SIZE_def)
  have h1: "collected silent_turn [1, 2] init_client = Some ([], []) \<and> concat ([]::bytes list) = [] \<and>
      join_space [] = []"
    by (simp add: collected_silent[OF r p])
  have h2: "nova_session session_connection = Some (new_session 5000 5000000) \<and>
    length (audio_buffer (audio_processor (new_session 5000 5000000))) \<le> BUFFER_MAX_SIZE \<and>
    keep_last BUFFER_MAX_SIZE
       (audio_buffer (audio_processor (new_session 5000 5000000)) @ [1, 2]) \<noteq> [] \<and>
    collected (turn rejecting_env)
      (keep_last BUFFER_MAX_SIZE
         (audio_buffer (audio_processor (new_session 5000 5000000)) @ [1, 2]))
      (nova_service (new_session 5000 5000000)) = Some ([], []) \<and>
    concat ([]::bytes list) = [] \<and> join_space [] = []"
    unfolding k t session_connection_facts
    by (simp add: collected_silent[OF r p] new_session_def new_audio_processor_def
        keep_last_def BUFFER_MAX_SIZE_def)
  note w1 = no_output_is_one_error[of silent_turn "[1, 2]" init_client "[]" "[]",
      THEN conjunct1, THEN mp, OF h1]
  note w2 = no_output_is_one_error[of _ _ _ _ _ session_connection "new_session 5000 5000000"
      "[1, 2]" rejecting_env "[]" "[]", THEN conjunct2, THEN mp, OF h2]
  from w1 w2 show ?thesis
    by (simp add: session_connection_def fresh_connection_def)
qed

section \<open>The reader and the text of a turn\<close>

lemma starts_with_iff: "starts_with p t \<longleftrightarrow> (\<exists>b. t = p @ b)"
  by (induction p t rule: starts_with.induct) auto

lemma contains_iff: "contains p t \<longleftrightarrow> (\<exists>a b. t = a @ p @ b)"
proof (induction t)
  case Nil
  then show ?case by auto
next
  case (Cons x xs)
  show ?case
  proof
    assume "contains p (x # xs)"
    then consider "starts_with p (x # xs)" | "contains p xs" by auto
    then show "\<exists>a b. x # xs = a @ p @ b"
    proof cases
      case 1
      then obtain b where "x # xs = p @ b" by (auto simp: starts_with_iff)
      then have "x # xs = [] @ p @ b" by simp
      then show ?thesis by blast
    next
      case 2
      with Cons.IH obtain a b where "xs = a @ p @ b" by auto
      then have "x # xs = (x # a) @ p @ b" by simp
      then show ?thesis by blast
    qed
  next
    assume "\<exists>a b. x # xs = a @ p @ b"
    then obtain a b where ab: "x # xs = a @ p @ b" by auto
    show "contains p (x # xs)"
    proof (cases a)
      case Nil
      with ab have "starts_with p (x # xs)" by (auto simp: starts_with_iff)
      then show ?thesis by simp
    next
      case (Cons y ys)
      with ab have "xs = ys @ p @ b" by simp
      with Cons.IH have "contains p xs" by auto
      then show ?thesis by simp
    qed
  qed
qed

lemma process_response_text:
  "process_response (TextOutput t) c =
     (if contains interruption_marker t
      then c\<lparr>event_queue := event_queue c @ [Barge_in], text_queue := text_queue c @ [(role c, t)]\<rparr>
      else c\<lparr>text_queue := text_queue c @ [(role c, t)]\<rparr>)"
  by (simp add: process_response_def Let_def)

lemma process_response_role:
  "role (process_response ev c) = role_after (role c) [ev]"
  by (cases ev) (auto simp: process_response_def Let_def split: option.splits model_fields.splits)

lemma process_response_texts:
  "map snd (filter (\<lambda>x. fst x = Some ''ASSISTANT'') (text_queue (process_response ev c))) =
   map snd (filter (\<lambda>x. fst x = Some ''ASSISTANT'') (text_queue c)) @
     assistant_fragments (role c) [ev]"
  by (cases ev) (auto simp: process_response_def Let_def split: option.splits model_fields.splits)

lemma role_after_Cons: "role_after r (ev # evs) = role_after (role_after r [ev]) evs"
  by (cases ev) simp_all

lemma assistant_fragments_Cons:
  "assistant_fragments r (ev # evs) =
     assistant_fragments r [ev] @ assistant_fragments (role_after r [ev]) evs"
  by (cases ev) simp_all

lemma reader_texts:
  "map snd (filter (\<lambda>x. fst x = Some ''ASSISTANT'') (text_queue (reader evs c))) =
     map snd (filter (\<lambda>x. fst x = Some ''ASSISTANT'') (text_queue c)) @
       assistant_fragments (role c) evs \<and>
   role (reader evs c) = role_after (role c) evs"
proof (induction evs arbitrary: c)
  case Nil
  then show ?case by (simp add: reader_def)
next
  case (Cons ev evs)
  have r: "reader (ev # evs) c = reader evs (process_response ev c)" by (simp add: reader_def)
  show ?case
    unfolding r
    by (simp add: Cons.IH process_response_texts process_response_role
        assistant_fragments_Cons[of "role c" ev evs] role_after_Cons[of "role c" ev evs])
qed

lemma assistant_fragments_append:
  "assistant_fragments r (xs @ ys) =
     assistant_fragments r xs @ assistant_fragments (role_after r xs) ys"
proof (induction xs arbitrary: r)
  case Nil
  then show ?case by simp
next
  case (Cons ev xs)
  show ?case
    by (simp add: assistant_fragments_Cons[of r ev "xs @ ys"] assistant_fragments_Cons[of r ev xs]
        role_after_Cons[of r ev xs] Cons.IH)
qed

lemma end_audio_input_queues:
  assumes "end_audio_input c = (r, c')"
  shows "audio_queue c' = audio_queue c \<and> text_queue c' = text_queue c \<and>
     event_queue c' = event_queue c \<and> role c' = role c"
  using assms unfolding end_audio_input_def Let_def
  apply (cases "prompt_name c = None \<or> audio_content_name c = None")
   apply (clarsimp simp: log_line_def)
  apply (simp only: if_False)
  apply (erule send_eventE, clarsimp)
  apply (erule send_eventE, clarsimp)
  apply (clarsimp simp: log_line_def)
  done

lemma start_audio_input_queues:
  assumes "start_audio_input c = (r, c')"
  shows "audio_queue c' = audio_queue c \<and> text_queue c' = text_queue c \<and>
     event_queue c' = event_queue c \<and> role c' = role c"
proof -
  obtain r1 c1 where e: "(if content_open c then end_audio_input (log_line WarnContentAlreadyOpen c)
            else (Inr (), c)) = (r1, c1)"
    by (cases "if content_open c then end_audio_input (log_line WarnContentAlreadyOpen c)
            else (Inr (), c)")
  have q1: "audio_queue c1 = audio_queue c \<and> text_queue c1 = text_queue c \<and>
     event_queue c1 = event_queue c \<and> role c1 = role c"
  proof (cases "content_open c")
    case True
    with e have "end_audio_input (log_line WarnContentAlreadyOpen c) = (r1, c1)" by simp
    from end_audio_input_queues[OF this] show ?thesis by (simp add: log_line_def)
  next
    case False
    with e show ?thesis by simp
  qed
  show ?thesis
  proof (cases r1)
    case (Inl x)
    with assms e q1 show ?thesis by (simp add: start_audio_input_def)
  next
    case (Inr u)
    from assms show ?thesis
      unfolding start_audio_input_def e Inr Let_def
      apply (simp only: prod.case sum.case)
      apply (erule send_eventE)
      using q1 apply clarsimp
      using q1 apply clarsimp
      done
  qed
qed

lemma send_chunks_queues:
  assumes "send_chunks chs c = (r, c')"
  shows "audio_queue c' = audio_queue c \<and> text_queue c' = text_queue c \<and>
     event_queue c' = event_queue c \<and> role c' = role c"
  using assms
proof (induction chs arbitrary: c)
  case Nil
  then show ?case by simp
next
  case (Cons ch chs)
  obtain r1 c1 where s1: "send_audio_chunk ch c = (r1, c1)" by (cases "send_audio_chunk ch c")
  have q1: "audio_queue c1 = audio_queue c \<and> text_queue c1 = text_queue c \<and>
     event_queue c1 = event_queue c \<and> role c1 = role c"
    using s1 by (auto simp: send_audio_chunk_def log_line_def send_event_def
        split: if_splits option.splits)
  show ?case
  proof (cases r1)
    case (Inl x)
    with Cons.prems s1 q1 show ?thesis by simp
  next
    case (Inr u)
    with Cons.prems s1 have "send_chunks chs c1 = (r, c')" by simp
    from Cons.IH[OF this] q1 show ?thesis by simp
  qed
qed

text \<open>Once the queues are cleared, the rest of the first half leaves them and the role
  alone.\<close>
lemma turn_body_queues:
  assumes "(case start_audio_input c0 of
        (Inl e, c1) \<Rightarrow> (Inl e, c1)
      | (Inr u, c1) \<Rightarrow>
     (case send_chunks chs c1 of
        (Inl e, c2) \<Rightarrow> (Inl e, c2)
      | (Inr u, c2) \<Rightarrow> end_audio_input c2)) = (r, c')"
  shows "audio_queue c' = audio_queue c0 \<and> text_queue c' = text_queue c0 \<and>
     event_queue c' = event_queue c0 \<and> role c' = role c0"
proof -
  obtain r1 c1 where s1: "start_audio_input c0 = (r1, c1)" by (cases "start_audio_input c0")
  note q1 = start_audio_input_queues[OF s1]
  show ?thesis
  proof (cases r1)
    case (Inl e)
    with assms s1 q1 show ?thesis by auto
  next
    case i1: (Inr u1)
    obtain r2 c2 where s2: "send_chunks chs c1 = (r2, c2)" by (cases "send_chunks chs c1")
    note q2 = send_chunks_queues[OF s2]
    show ?thesis
    proof (cases r2)
      case (Inl e)
      with assms s1 i1 s2 q1 q2 show ?thesis by auto
    next
      case i2: (Inr u2)
      from assms s1 i1 s2 i2 have "end_audio_input c2 = (r, c')" by simp
      from end_audio_input_queues[OF this] q1 q2 show ?thesis by simp
    qed
  qed
qed

lemma forward_turn_clears:
  assumes "forward_turn env d c = (Inr (), c1)"
  shows "text_queue c1 = [] \<and> audio_queue c1 = []"
proof (cases "is_active c")
  case True
  let ?c0 = "c\<lparr>audio_queue := [], text_queue := []\<rparr>"
  have "(case start_audio_input ?c0 of
        (Inl e, c1) \<Rightarrow> (Inl e, c1)
      | (Inr u, c1) \<Rightarrow>
     (case send_chunks (slices 4096 d) c1 of
        (Inl e, c2) \<Rightarrow> (Inl e, c2)
      | (Inr u, c2) \<Rightarrow> end_audio_input c2)) = (Inr (), c1)"
    using assms True by (simp add: forward_turn_def)
  from turn_body_queues[OF this] show ?thesis by simp
next
  case False
  obtain b c0 where ss: "start_session (connect env) c = (b, c0)"
    by (cases "start_session (connect env) c")
  show ?thesis
  proof (cases b)
    case False
    with assms \<open>\<not> is_active c\<close> ss show ?thesis by (simp add: forward_turn_def)
  next
    case True
    let ?c0 = "(reader (early env) c0)\<lparr>audio_queue := [], text_queue := []\<rparr>"
    have "(case start_audio_input ?c0 of
        (Inl e, c1) \<Rightarrow> (Inl e, c1)
      | (Inr u, c1) \<Rightarrow>
     (case send_chunks (slices 4096 d) c1 of
        (Inl e, c2) \<Rightarrow> (Inl e, c2)
      | (Inr u, c2) \<Rightarrow> end_audio_input c2)) = (Inr (), c1)"
      using assms \<open>\<not> is_active c\<close> ss True by (simp add: forward_turn_def)
    from turn_body_queues[OF this] show ?thesis by simp
  qed
qed

lemma controls_Cons: "controls (ev # evs) = controls [ev] @ controls evs"
  by (cases ev) simp_all

lemma audio_fragments_Cons: "audio_fragments (ev # evs) = audio_fragments [ev] @ audio_fragments evs"
proof (cases ev)
  case (AudioOutput b)
  then show ?thesis by (cases b) simp_all
qed simp_all

lemma audio_fragments_append:
  "audio_fragments (xs @ ys) = audio_fragments xs @ audio_fragments ys"
proof (induction xs)
  case Nil
  then show ?case by simp
next
  case (Cons ev xs)
  show ?case
    by (simp add: audio_fragments_Cons[of ev "xs @ ys"] audio_fragments_Cons[of ev xs] Cons.IH)
qed

lemma process_response_queues:
  "event_queue (process_response ev c) = event_queue c @ controls [ev] \<and>
   audio_queue (process_response ev c) = audio_queue c @ audio_fragments [ev]"
  by (cases ev) (auto simp: process_response_def Let_def split: option.splits model_fields.splits)

lemma reader_queues:
  "event_queue (reader evs c) = event_queue c @ controls evs \<and>
   audio_queue (reader evs c) = audio_queue c @ audio_fragments evs"
proof (induction evs arbitrary: c)
  case Nil
  then show ?case by (simp add: reader_def)
next
  case (Cons ev evs)
  have r: "reader (ev # evs) c = reader evs (process_response ev c)" by (simp add: reader_def)
  show ?case
    unfolding r
    by (simp add: Cons.IH process_response_queues controls_Cons[of ev evs]
        audio_fragments_Cons[of ev evs])
qed

text \<open>What the collecting loop returns, from queues that hold no audio and no text.\<close>
lemma collect_exact:
  assumes "audio_queue c = []" "text_queue c = []" "collect ps ac tp c = (ac', tp', c')"
  shows "ac' = ac @ audio_fragments (concat (take
            (gathered_polls (event_queue c) (ac \<noteq> []) (tp \<noteq> []) (role c) ps) ps)) \<and>
         tp' = tp @ assistant_fragments (role c) (concat (take
            (gathered_polls (event_queue c) (ac \<noteq> []) (tp \<noteq> []) (role c) ps) ps))"
  using assms
proof (induction ps arbitrary: ac tp c)
  case Nil
  then show ?case by simp
next
  case (Cons batch rest)
  let ?q = "event_queue c @ controls batch"
  have rq: "event_queue (reader batch c) = ?q" "audio_queue (reader batch c) = audio_fragments batch"
    using reader_queues[of batch c] Cons.prems(1) by simp_all
  obtain ev c1 where ne: "next_event (reader batch c) = (ev, c1)"
    by (cases "next_event (reader batch c)")
  have ev: "ev = Some Completion \<longleftrightarrow> (?q \<noteq> [] \<and> hd ?q = Completion)"
    and q1: "event_queue c1 = tl ?q"
    using ne rq(1) by (auto simp: next_event_def split: list.splits)
  note f1 = next_event_frame[OF ne]
  show ?case
  proof (cases "ev = Some Completion")
    case True
    with Cons.prems ne have "ac' = ac" "tp' = tp" by simp_all
    moreover have "gathered_polls (event_queue c) (ac \<noteq> []) (tp \<noteq> []) (role c) (batch # rest) = 0"
      using True ev by (simp add: Let_def)
    ultimately show ?thesis by simp
  next
    case False
    with ev have nc: "\<not> (?q \<noteq> [] \<and> hd ?q = Completion)" by blast
    obtain ac2 tp2 c2 where g: "gather ac tp c1 = (ac2, tp2, c2)"
      by (cases "gather ac tp c1")
    have g2: "ac2 = ac @ audio_fragments batch" "tp2 = tp @ assistant_fragments (role c) batch"
      "audio_queue c2 = []" "text_queue c2 = []" "role c2 = role_after (role c) batch"
      "event_queue c2 = tl ?q"
      using g f1 rq q1 reader_texts[of batch c] Cons.prems(2) by (auto simp: gather_def)
    have flags: "(ac2 \<noteq> []) = (ac \<noteq> [] \<or> audio_fragments batch \<noteq> [])"
      "(tp2 \<noteq> []) = (tp \<noteq> [] \<or> assistant_fragments (role c) batch \<noteq> [])"
      using g2 by simp_all
    show ?thesis
    proof (cases "ac2 \<noteq> [] \<and> tp2 \<noteq> []")
      case True
      with Cons.prems ne g False have r: "ac' = ac2" "tp' = tp2"
        by (auto split: option.splits control.splits)
      have ya: "(ac \<noteq> [] \<or> audio_fragments batch \<noteq> []) \<and>
          (tp \<noteq> [] \<or> assistant_fragments (role c) batch \<noteq> [])"
        using True flags by blast
      have "gathered_polls (event_queue c) (ac \<noteq> []) (tp \<noteq> []) (role c) (batch # rest) = 1"
        using ya nc by (simp only: gathered_polls.simps Let_def if_False if_True simp_thms)
      with r g2 show ?thesis by simp
    next
      case no: False
      with Cons.prems ne g False have "collect rest ac2 tp2 c2 = (ac', tp', c')"
        by (auto split: option.splits control.splits)
      note ih = Cons.IH[OF g2(3) g2(4) this]
      have nb: "\<not> ((ac \<noteq> [] \<or> audio_fragments batch \<noteq> []) \<and>
          (tp \<noteq> [] \<or> assistant_fragments (role c) batch \<noteq> []))"
        using no flags by blast
      have "gathered_polls (event_queue c) (ac \<noteq> []) (tp \<noteq> []) (role c) (batch # rest) =
          Suc (gathered_polls (tl ?q) (ac \<noteq> [] \<or> audio_fragments batch \<noteq> [])
                 (tp \<noteq> [] \<or> assistant_fragments (role c) batch \<noteq> [])
                 (role_after (role c) batch) rest)"
        using nb nc by (simp only: gathered_polls.simps Let_def if_False)
      then have n: "gathered_polls (event_queue c) (ac \<noteq> []) (tp \<noteq> []) (role c) (batch # rest) =
          Suc (gathered_polls (event_queue c2) (ac2 \<noteq> []) (tp2 \<noteq> []) (role c2) rest)"
        by (simp only: g2(5) g2(6) flags)
      show ?thesis
        unfolding n using ih g2(1,2,5)
        by (simp add: audio_fragments_append assistant_fragments_append)
    qed
  qed
qed

lemma start_session_queues:
  assumes "start_session conn c = (b, c')"
  shows "audio_queue c' = audio_queue c \<and> text_queue c' = text_queue c \<and>
     event_queue c' = event_queue c \<and> role c' = role c \<and> (b \<longrightarrow> is_active c')"
  using assms unfolding start_session_def Let_def
  apply (cases conn)
   apply (clarsimp simp: start_failed_def log_line_def)
  apply (simp only: option.case)
  apply (erule send_eventE, clarsimp simp: start_failed_def log_line_def)
  apply (erule send_eventE, clarsimp simp: start_failed_def log_line_def)
  apply (erule send_eventE, clarsimp simp: start_failed_def log_line_def)
  apply (erule send_eventE, clarsimp simp: start_failed_def log_line_def)
  apply (erule send_eventE, clarsimp simp: start_failed_def log_line_def)
  apply clarsimp
  done

text \<open>The queues and the role when the collecting loop of a call begins.\<close>
lemma forward_turn_start:
  assumes "forward_turn env d c = (Inr (), c1)"
  shows "text_queue c1 = [] \<and> audio_queue c1 = [] \<and> role c1 = role_at_start env c \<and>
     event_queue c1 = pending_at_start env c"
proof (cases "is_active c")
  case True
  let ?c0 = "c\<lparr>audio_queue := [], text_queue := []\<rparr>"
  have "(case start_audio_input ?c0 of
        (Inl e, c1) \<Rightarrow> (Inl e, c1)
      | (Inr u, c1) \<Rightarrow>
     (case send_chunks (slices 4096 d) c1 of
        (Inl e, c2) \<Rightarrow> (Inl e, c2)
      | (Inr u, c2) \<Rightarrow> end_audio_input c2)) = (Inr (), c1)"
    using assms True by (simp add: forward_turn_def)
  from turn_body_queues[OF this] True show ?thesis
    by (simp add: role_at_start_def pending_at_start_def)
next
  case False
  obtain b c0 where ss: "start_session (connect env) c = (b, c0)"
    by (cases "start_session (connect env) c")
  note q0 = start_session_queues[OF ss]
  show ?thesis
  proof (cases b)
    case False
    with assms \<open>\<not> is_active c\<close> ss show ?thesis by (simp add: forward_turn_def)
  next
    case True
    let ?c0 = "(reader (early env) c0)\<lparr>audio_queue := [], text_queue := []\<rparr>"
    have "(case start_audio_input ?c0 of
        (Inl e, c1) \<Rightarrow> (Inl e, c1)
      | (Inr u, c1) \<Rightarrow>
     (case send_chunks (slices 4096 d) c1 of
        (Inl e, c2) \<Rightarrow> (Inl e, c2)
      | (Inr u, c2) \<Rightarrow> end_audio_input c2)) = (Inr (), c1)"
      using assms \<open>\<not> is_active c\<close> ss True by (simp add: forward_turn_def)
    from turn_body_queues[OF this] q0 \<open>\<not> is_active c\<close>
      reader_queues[of "early env" c0] reader_texts[of "early env" c0]
    show ?thesis by (simp add: role_at_start_def pending_at_start_def)
  qed
qed

lemma collected_exact:
  assumes "fst (forward_turn env d c) = Inr ()"
  shows "collected env d c =
     Some (audio_fragments (gathered_events env c),
           assistant_fragments (role_at_start env c) (gathered_events env c))"
proof -
  obtain c1 where ft: "forward_turn env d c = (Inr (), c1)"
    using assms by (cases "forward_turn env d c") auto
  obtain ac tp c2 where col: "collect (polls env) [] [] c1 = (ac, tp, c2)"
    by (cases "collect (polls env) [] [] c1") auto
  note s = forward_turn_start[OF ft]
  from s have q: "audio_queue c1 = []" "text_queue c1 = []" by simp_all
  from collect_exact[OF q col] s
  have "ac = audio_fragments (gathered_events env c) \<and>
      tp = assistant_fragments (role_at_start env c) (gathered_events env c)"
    by (simp add: gathered_events_def)
  with ft col show ?thesis by (simp add: collected_def)
qed

lemma process_audio_simple_collected:
  assumes "collected env d c = Some (ac, tp)"
  shows "text_out (fst (process_audio_simple env d c)) = join_space tp \<and>
     audio (fst (process_audio_simple env d c)) = concat ac \<and>
     (success (fst (process_audio_simple env d c)) \<longleftrightarrow> concat ac \<noteq> [] \<or> join_space tp \<noteq> [])"
proof -
  obtain r c1 where ft: "forward_turn env d c = (r, c1)" by (cases "forward_turn env d c")
  with assms obtain u where r: "r = Inr u" by (cases r) (simp_all add: collected_def)
  obtain ac2 tp2 c2 where col: "collect (polls env) [] [] c1 = (ac2, tp2, c2)"
    by (cases "collect (polls env) [] [] c1") auto
  with assms ft r have e: "ac2 = ac" "tp2 = tp" by (simp_all add: collected_def)
  show ?thesis
    using ft r col e
    by (cases "concat ac = []"; cases "join_space tp = []")
       (simp_all add: process_audio_simple_def combine_def no_response_def Let_def)
qed

lemma process_audio_simple_raised:
  assumes "fst (forward_turn env d c) \<noteq> Inr ()"
  shows "text_out (fst (process_audio_simple env d c)) = [] \<and>
     audio (fst (process_audio_simple env d c)) = [] \<and>
     \<not> success (fst (process_audio_simple env d c))"
proof -
  obtain r c1 where ft: "forward_turn env d c = (r, c1)" by (cases "forward_turn env d c")
  with assms obtain e where "r = Inl e" by (cases r) simp_all
  with ft show ?thesis by (simp add: process_audio_simple_def failed_def)
qed

lemma stale_queues_ignored:
  "is_active c \<Longrightarrow>
   process_audio_simple env d (c\<lparr>audio_queue := qa, text_queue := qt\<rparr>) =
   process_audio_simple env d c"
  by (simp add: process_audio_simple_def forward_turn_def)

section \<open>The transcript and the interruption marker\<close>

lemma process_response_cleared:
  "(process_response ev c)\<lparr>audio_queue := [], text_queue := []\<rparr> =
   (process_response ev (c\<lparr>audio_queue := [], text_queue := []\<rparr>))\<lparr>audio_queue := [], text_queue := []\<rparr>"
  by (cases ev) (auto simp: process_response_def Let_def split: option.splits model_fields.splits)

lemma reader_cleared:
  "(reader evs c)\<lparr>audio_queue := [], text_queue := []\<rparr> =
   (reader evs (c\<lparr>audio_queue := [], text_queue := []\<rparr>))\<lparr>audio_queue := [], text_queue := []\<rparr>"
proof (induction evs arbitrary: c)
  case Nil
  then show ?case by (simp add: reader_def)
next
  case (Cons ev evs)
  let ?k = "\<lambda>c. c\<lparr>audio_queue := [], text_queue := []\<rparr>"
  have r: "\<And>c. reader (ev # evs) c = reader evs (process_response ev c)" by (simp add: reader_def)
  have "?k (reader (ev # evs) c) = ?k (reader evs (?k (process_response ev c)))"
    unfolding r by (rule Cons.IH)
  also have "\<dots> = ?k (reader evs (?k (process_response ev (?k c))))"
    by (simp only: process_response_cleared[of ev c])
  also have "\<dots> = ?k (reader evs (process_response ev (?k c)))"
    by (rule Cons.IH[symmetric])
  finally show ?case unfolding r .
qed

lemma start_session_stale:
  "start_session conn (c\<lparr>audio_queue := qa, text_queue := qt\<rparr>) =
     (fst (start_session conn c),
      (snd (start_session conn c))\<lparr>audio_queue := qa, text_queue := qt\<rparr>)"
proof (cases conn)
  case None
  then show ?thesis by (simp add: start_session_def start_failed_def log_line_def Let_def)
next
  case (Some st)
  then show ?thesis
    by (simp add: start_session_def start_failed_def log_line_def Let_def send_event_def)
qed

text \<open>What the audio queue and the text queue hold before a call has no influence on its
  result.\<close>
lemma stale_queues_cleared:
  "fst (process_audio_simple env d (c\<lparr>audio_queue := qa, text_queue := qt\<rparr>)) =
   fst (process_audio_simple env d c)"
proof (cases "is_active c")
  case True
  then show ?thesis by (simp add: stale_queues_ignored)
next
  case False
  let ?c' = "c\<lparr>audio_queue := qa, text_queue := qt\<rparr>"
  obtain b c0 where ss: "start_session (connect env) c = (b, c0)"
    by (cases "start_session (connect env) c")
  then have ss': "start_session (connect env) ?c' = (b, c0\<lparr>audio_queue := qa, text_queue := qt\<rparr>)"
    by (simp add: start_session_stale)
  show ?thesis
  proof (cases b)
    case False
    with \<open>\<not> is_active c\<close> ss ss' show ?thesis
      by (simp add: process_audio_simple_def forward_turn_def)
  next
    case True
    have "(reader (early env) (c0\<lparr>audio_queue := qa, text_queue := qt\<rparr>))\<lparr>audio_queue := [], text_queue := []\<rparr> =
        (reader (early env) c0)\<lparr>audio_queue := [], text_queue := []\<rparr>"
      using reader_cleared[of "early env" "c0\<lparr>audio_queue := qa, text_queue := qt\<rparr>"]
        reader_cleared[of "early env" c0]
      by simp
    then have "forward_turn env d ?c' = forward_turn env d c"
      using False ss ss' True by (simp add: forward_turn_def)
    then show ?thesis by (simp add: process_audio_simple_def)
  qed
qed


lemma marker_in_itself: "contains interruption_marker interruption_marker"
proof -
  have "interruption_marker = [] @ interruption_marker @ []" by simp
  then show ?thesis unfolding contains_iff by blast
qed

lemma fresh_turn_completes:
  assumes "connect env = Some reliable"
  shows "fst (forward_turn env d init_client) = Inr ()"
proof -
  have "ready env init_client" using assms by (simp add: ready_def init_client_def)
  then show ?thesis
    using forward_turn_ready[of env init_client d] by (cases "forward_turn env d init_client") auto
qed

lemma reliable_turn_completes: "fst (forward_turn env d reliable_client) = Inr ()"
proof -
  have "ready env reliable_client" by (simp add: ready_def reliable_client_def init_client_def)
  then show ?thesis
    using forward_turn_ready[of env reliable_client d]
    by (cases "forward_turn env d reliable_client") auto
qed

lemma text_parts_exact:
  assumes "fst (forward_turn env d c) = Inr ()"
  shows "text_parts env d c = assistant_fragments (role_at_start env c) (gathered_events env c)"
    and "text_out (fst (process_audio_simple env d c)) = join_space (text_parts env d c)"
  using collected_exact[OF assms]
    process_audio_simple_collected[of env d c "audio_fragments (gathered_events env c)"
      "assistant_fragments (role_at_start env c) (gathered_events env c)"]
  by (simp_all add: text_parts_def)

lemma gathered_examples:
  "gathered_events chat_turn init_client = concat (polls chat_turn)"
  "gathered_events spoken_turn reliable_client =
     [StartOfContent (Some ''ASSISTANT'') NoFields, TextOutput ''hi'', AudioOutput (Some [1])]"
  "gathered_events completed_turn init_client = []"
  "gathered_events interrupted_turn init_client = concat (polls interrupted_turn)"
  by (simp_all add: gathered_events_def pending_at_start_def role_at_start_def Let_def
      chat_turn_def spoken_turn_def completed_turn_def interrupted_turn_def
      init_client_def reliable_client_def interruption_marker_def)

lemma role_examples:
  "role_at_start chat_turn init_client = None"
  "role_at_start spoken_turn reliable_client = None"
  "role_at_start completed_turn init_client = None"
  "role_at_start interrupted_turn init_client = None"
  by (simp_all add: role_at_start_def chat_turn_def spoken_turn_def completed_turn_def
      interrupted_turn_def init_client_def reliable_client_def)

lemma fragment_examples:
  "assistant_fragments None (concat (polls chat_turn)) = [''hi'', ''there'']"
  "assistant_fragments None (concat (polls interrupted_turn)) = [interruption_marker]"
  by (simp_all add: chat_turn_def interrupted_turn_def)

text \<open>
  Claim C10, amended. When the first half of \<^verbatim>\<open>process_audio_simple\<close> has not raised,
  the text it returns is the join, with single spaces, of the fragments that arrived under
  the role \<^verbatim>\<open>ASSISTANT\<close> in the polls that its collecting loop gathered, in order of
  arrival, and the audio it returns is the concatenation of the audio fragments of those
  polls. The loop gathers the polls up to the one at which it ends: it ends without
  gathering at a poll that finds a completion oldest among the pending control events, it
  ends after gathering once it holds both audio and text, and it ends when the time is up.
  Fragments under any other role are left out. When the first half raises, the text is
  empty and the call reports no success. What the audio queue and the text queue held
  before the call has no influence on the result, nor on what an active client becomes.
\<close>
theorem transcript_is_assistant_text:
  "(fst (forward_turn env d c) = Inr () \<longrightarrow>
      text_out (fst (process_audio_simple env d c)) =
        join_space (assistant_fragments (role_at_start env c) (gathered_events env c)) \<and>
      audio (fst (process_audio_simple env d c)) =
        concat (audio_fragments (gathered_events env c))) \<and>
   (fst (forward_turn env d c) \<noteq> Inr () \<longrightarrow>
      text_out (fst (process_audio_simple env d c)) = [] \<and>
      \<not> success (fst (process_audio_simple env d c))) \<and>
   fst (process_audio_simple env d (c\<lparr>audio_queue := qa, text_queue := qt\<rparr>)) =
     fst (process_audio_simple env d c) \<and>
   (is_active c \<longrightarrow>
      process_audio_simple env d (c\<lparr>audio_queue := qa, text_queue := qt\<rparr>) =
      process_audio_simple env d c)"
proof (intro conjI impI)
  assume h: "fst (forward_turn env d c) = Inr ()"
  note e = process_audio_simple_collected[OF collected_exact[OF h]]
  from e show "text_out (fst (process_audio_simple env d c)) =
        join_space (assistant_fragments (role_at_start env c) (gathered_events env c))"
    by blast
  from e show "audio (fst (process_audio_simple env d c)) =
        concat (audio_fragments (gathered_events env c))"
    by blast
next
  assume h: "fst (forward_turn env d c) \<noteq> Inr ()"
  note e = process_audio_simple_raised[OF h]
  from e show "text_out (fst (process_audio_simple env d c)) = []" by blast
  from e show "\<not> success (fst (process_audio_simple env d c))" by blast
next
  show "fst (process_audio_simple env d (c\<lparr>audio_queue := qa, text_queue := qt\<rparr>)) =
     fst (process_audio_simple env d c)"
    by (rule stale_queues_cleared)
next
  assume "is_active c"
  then show "process_audio_simple env d (c\<lparr>audio_queue := qa, text_queue := qt\<rparr>) =
      process_audio_simple env d c"
    by (rule stale_queues_ignored)
qed

theorem transcript_is_assistant_text_witness:
  "text_out (fst (process_audio_simple chat_turn [1, 2] init_client)) = ''hi there'' \<and>
   text_out (fst (process_audio_simple spoken_turn [1, 2] reliable_client)) = ''hi'' \<and>
   audio (fst (process_audio_simple spoken_turn [1, 2] reliable_client)) = [1] \<and>
   text_out (fst (process_audio_simple (silent_turn\<lparr>connect := None\<rparr>) [1, 2] init_client)) = [] \<and>
   process_audio_simple chat_turn [1, 2]
      (reliable_client\<lparr>audio_queue := [[9]], text_queue := [(Some ''ASSISTANT'', ''old'')]\<rparr>) =
   process_audio_simple chat_turn [1, 2] reliable_client"
proof -
  have h1: "fst (forward_turn chat_turn [1, 2] init_client) = Inr ()"
    by (rule fresh_turn_completes) (simp add: chat_turn_def)
  have h2: "fst (forward_turn spoken_turn [1, 2] reliable_client) = Inr ()"
    by (rule reliable_turn_completes)
  have h3: "fst (forward_turn (silent_turn\<lparr>connect := None\<rparr>) [1, 2] init_client) \<noteq> Inr ()"
    by (simp add: forward_turn_def start_session_def start_failed_def silent_turn_def
        init_client_def log_line_def Let_def)
  have h4: "is_active reliable_client" by (simp add: reliable_client_def)
  note w1 = transcript_is_assistant_text[where env = chat_turn and d = "[1, 2]" and c = init_client,
      THEN conjunct1, THEN mp, OF h1]
  note w2 = transcript_is_assistant_text[where env = spoken_turn and d = "[1, 2]"
      and c = reliable_client, THEN conjunct1, THEN mp, OF h2]
  note w3 = transcript_is_assistant_text[where env = "silent_turn\<lparr>connect := None\<rparr>"
      and d = "[1, 2]" and c = init_client, THEN conjunct2, THEN conjunct1, THEN mp, OF h3]
  note w4 = transcript_is_assistant_text[where env = chat_turn and d = "[1, 2]"
      and c = reliable_client and qa = "[[9]]" and qt = "[(Some ''ASSISTANT'', ''old'')]",
      THEN conjunct2, THEN conjunct2, THEN conjunct2, THEN mp, OF h4]
  have 1: "text_out (fst (process_audio_simple chat_turn [1, 2] init_client)) = ''hi there''"
    using w1 by (simp add: gathered_examples role_examples fragment_examples)
  have 2: "text_out (fst (process_audio_simple spoken_turn [1, 2] reliable_client)) = ''hi''"
    "audio (fst (process_audio_simple spoken_turn [1, 2] reliable_client)) = [1]"
    using w2 by (simp_all add: gathered_examples role_examples)
  from w3 have 3: "text_out (fst (process_audio_simple (silent_turn\<lparr>connect := None\<rparr>) [1, 2]
      init_client)) = []"
    by (rule conjunct1)
  from 1 2 3 w4 show ?thesis by (intro conjI)
qed

text \<open>
  Claim C10 as stated fails when the completion is handled before the collecting loop
  looks at the queues: the assistant's fragment arrived during the turn, under the role
  \<^verbatim>\<open>ASSISTANT\<close>, and the text returned is empty.
\<close>
theorem completion_drops_observed_text:
  "assistant_fragments None (concat (polls completed_turn)) = [''hi''] \<and>
   fst (forward_turn completed_turn [1, 2] init_client) = Inr () \<and>
   text_out (fst (process_audio_simple completed_turn [1, 2] init_client)) = [] \<and>
   \<not> success (fst (process_audio_simple completed_turn [1, 2] init_client))"
proof -
  have h: "fst (forward_turn completed_turn [1, 2] init_client) = Inr ()"
    by (rule fresh_turn_completes) (simp add: completed_turn_def)
  note e = process_audio_simple_collected[OF collected_exact[OF h]]
  have "text_out (fst (process_audio_simple completed_turn [1, 2] init_client)) = []"
    "\<not> success (fst (process_audio_simple completed_turn [1, 2] init_client))"
    using e by (simp_all add: gathered_examples role_examples)
  moreover have "assistant_fragments None (concat (polls completed_turn)) = [''hi'']"
    by (simp add: completed_turn_def)
  ultimately show ?thesis using h by (intro conjI)
qed

text \<open>
  Claim C3, amended. A text fragment contains the interruption marker exactly when the
  marker is a substring of it. For every such fragment the reader puts a barge-in event
  on the event queue and, in addition, queues the fragment as text under the current
  role, exactly as it queues a fragment without the marker, for which it does nothing
  else. The collecting loop does not leave it out: whenever a fragment with the marker is
  among the fragments that arrived under the role \<^verbatim>\<open>ASSISTANT\<close> in the polls that the loop
  of a call gathered, it is one of the text parts whose join is the text returned. In
  particular, a single poll that holds only such a fragment, met with empty queues under
  the role \<^verbatim>\<open>ASSISTANT\<close>, yields that fragment as the only text part.
\<close>
theorem marker_fragment_is_also_text:
  "(contains interruption_marker t \<longleftrightarrow> (\<exists>a b. t = a @ interruption_marker @ b)) \<and>
   (contains interruption_marker t \<longrightarrow>
      process_response (TextOutput t) c =
        c\<lparr>event_queue := event_queue c @ [Barge_in], text_queue := text_queue c @ [(role c, t)]\<rparr>) \<and>
   (\<not> contains interruption_marker t \<longrightarrow>
      process_response (TextOutput t) c = c\<lparr>text_queue := text_queue c @ [(role c, t)]\<rparr>) \<and>
   (contains interruption_marker t \<and> fst (forward_turn env d c) = Inr () \<and>
    t \<in> set (assistant_fragments (role_at_start env c) (gathered_events env c)) \<longrightarrow>
      t \<in> set (text_parts env d c) \<and>
      text_out (fst (process_audio_simple env d c)) = join_space (text_parts env d c)) \<and>
   (contains interruption_marker t \<and> role c = Some ''ASSISTANT'' \<and> event_queue c = [] \<and>
    audio_queue c = [] \<and> text_queue c = [] \<longrightarrow>
      fst (snd (collect [[TextOutput t]] [] [] c)) = [t])"
proof (intro conjI impI)
  show "contains interruption_marker t \<longleftrightarrow> (\<exists>a b. t = a @ interruption_marker @ b)"
    by (rule contains_iff)
  show "process_response (TextOutput t) c =
        c\<lparr>event_queue := event_queue c @ [Barge_in], text_queue := text_queue c @ [(role c, t)]\<rparr>"
    if "contains interruption_marker t"
    using that by (simp add: process_response_text)
  show "process_response (TextOutput t) c = c\<lparr>text_queue := text_queue c @ [(role c, t)]\<rparr>"
    if "\<not> contains interruption_marker t"
    using that by (simp add: process_response_text)
  show "t \<in> set (text_parts env d c)"
    if "contains interruption_marker t \<and> fst (forward_turn env d c) = Inr () \<and>
      t \<in> set (assistant_fragments (role_at_start env c) (gathered_events env c))"
    using that text_parts_exact(1)[of env d c] by simp
  show "text_out (fst (process_audio_simple env d c)) = join_space (text_parts env d c)"
    if "contains interruption_marker t \<and> fst (forward_turn env d c) = Inr () \<and>
      t \<in> set (assistant_fragments (role_at_start env c) (gathered_events env c))"
    using that text_parts_exact(2)[of env d c] by simp
  show "fst (snd (collect [[TextOutput t]] [] [] c)) = [t]"
    if "contains interruption_marker t \<and> role c = Some ''ASSISTANT'' \<and> event_queue c = [] \<and>
      audio_queue c = [] \<and> text_queue c = []"
    using that
    by (simp add: reader_def process_response_text next_event_def gather_def)
qed

theorem marker_fragment_is_also_text_witness:
  "process_response (TextOutput interruption_marker) (reliable_client\<lparr>role := Some ''ASSISTANT''\<rparr>) =
     reliable_client\<lparr>role := Some ''ASSISTANT'', event_queue := [Barge_in],
        text_queue := [(Some ''ASSISTANT'', interruption_marker)]\<rparr> \<and>
   process_response (TextOutput ''hello'') reliable_client =
     reliable_client\<lparr>text_queue := [(None, ''hello'')]\<rparr> \<and>
   interruption_marker \<in> set (text_parts interrupted_turn [1, 2] init_client) \<and>
   text_out (fst (process_audio_simple interrupted_turn [1, 2] init_client)) =
     join_space (text_parts interrupted_turn [1, 2] init_client) \<and>
   fst (snd (collect [[TextOutput interruption_marker]] [] []
      (reliable_client\<lparr>role := Some ''ASSISTANT''\<rparr>))) = [interruption_marker]"
proof -
  let ?c = "reliable_client\<lparr>role := Some ''ASSISTANT''\<rparr>"
  have n: "\<not> contains interruption_marker ''hello''"
    by (simp add: interruption_marker_def)
  have h: "contains interruption_marker interruption_marker \<and> role ?c = Some ''ASSISTANT'' \<and>
      event_queue ?c = [] \<and> audio_queue ?c = [] \<and> text_queue ?c = []"
    by (simp add: marker_in_itself reliable_client_def init_client_def)
  have g: "contains interruption_marker interruption_marker \<and>
      fst (forward_turn interrupted_turn [1, 2] init_client) = Inr () \<and>
      interruption_marker \<in> set (assistant_fragments (role_at_start interrupted_turn init_client)
        (gathered_events interrupted_turn init_client))"
    using fresh_turn_completes[of interrupted_turn "[1, 2]"]
    by (simp add: marker_in_itself gathered_examples role_examples fragment_examples)
       (simp add: interrupted_turn_def)
  note t = marker_fragment_is_also_text[where t = interruption_marker and c = ?c]
  note a = t[THEN conjunct2, THEN conjunct1, THEN mp, OF marker_in_itself]
  note b = marker_fragment_is_also_text[where t = "''hello''" and c = reliable_client,
      THEN conjunct2, THEN conjunct2, THEN conjunct1, THEN mp, OF n]
  note c = marker_fragment_is_also_text[where t = interruption_marker and c = init_client
      and env = interrupted_turn and d = "[1, 2]",
      THEN conjunct2, THEN conjunct2, THEN conjunct2, THEN conjunct1, THEN mp, OF g]
  note d = t[THEN conjunct2, THEN conjunct2, THEN conjunct2, THEN conjunct2, THEN mp, OF h]
  have 1: "process_response (TextOutput interruption_marker) ?c =
     reliable_client\<lparr>role := Some ''ASSISTANT'', event_queue := [Barge_in],
        text_queue := [(Some ''ASSISTANT'', interruption_marker)]\<rparr>"
    using a by (simp add: reliable_client_def init_client_def)
  have 2: "process_response (TextOutput ''hello'') reliable_client =
     reliable_client\<lparr>text_queue := [(None, ''hello'')]\<rparr>"
    using b by (simp add: reliable_client_def init_client_def)
  from 1 2 c d show ?thesis by (intro conjI) (simp_all only: simp_thms)
qed

text \<open>
  Claim C3 as stated fails: when the assistant's only fragment is the interruption
  marker, the text returned for the turn is that fragment.
\<close>
theorem marker_reaches_transcript:
  "contains interruption_marker interruption_marker \<and>
   text_out (fst (process_audio_simple interrupted_turn [1, 2] init_client)) = interruption_marker"
proof -
  have h: "fst (forward_turn interrupted_turn [1, 2] init_client) = Inr ()"
    by (rule fresh_turn_completes) (simp add: interrupted_turn_def)
  have "text_out (fst (process_audio_simple interrupted_turn [1, 2] init_client)) =
     join_space (assistant_fragments (role_at_start interrupted_turn init_client)
       (gathered_events interrupted_turn init_client))"
    using text_parts_exact[OF h] by simp
  also have "\<dots> = interruption_marker"
    by (simp add: gathered_examples role_examples fragment_examples)
  finally show ?thesis using marker_in_itself by (intro conjI)
qed

section \<open>Content counters over the life of a client\<close>















section \<open>Closing a turn (\<^verbatim>\<open>end_audio_input\<close>)\<close>










end
